theory Spec2Isabelle
  imports Main "HOL-Library.List_Lexorder" "HOL-Library.Sublist"
begin

section \<open>Strings and bytes\<close>

text \<open>
  A JavaScript string is a sequence of UTF-16 code units and a Buffer is a sequence of
  octets. Both are modelled as lists of natural numbers; the functions below treat a
  number outside the range of a code unit (or of an octet) as they treat any other
  character that is not the one they look for. String literals of the source are written
  \<open>js ''...''\<close>. The order on strings is the lexicographic order on code units, which is the
  order of \<open>Array.prototype.sort\<close> without a comparator.
\<close>

type_synonym jschar = nat
type_synonym jsstring = "nat list"
type_synonym byte = nat
type_synonym buffer = "nat list"

definition js :: "string \<Rightarrow> jsstring" where
  "js s = map of_char s"

definition startsWith :: "jsstring \<Rightarrow> jsstring \<Rightarrow> bool" where
  "startsWith s p = (take (length p) s = p)"

definition endsWith :: "jsstring \<Rightarrow> jsstring \<Rightarrow> bool" where
  "endsWith s p = (length p \<le> length s \<and> drop (length s - length p) s = p)"

fun includesStr :: "jsstring \<Rightarrow> jsstring \<Rightarrow> bool" where
  "includesStr [] p = (p = [])"
| "includesStr (c # cs) p = (startsWith (c # cs) p \<or> includesStr cs p)"

text \<open>\<open>s.split("/")\<close> and \<open>parts.join("/")\<close> for a one-character separator.\<close>

fun splitOn :: "jschar \<Rightarrow> jsstring \<Rightarrow> jsstring list" where
  "splitOn sep [] = [[]]"
| "splitOn sep (c # cs) =
     (if c = sep then [] # splitOn sep cs
      else (case splitOn sep cs of [] \<Rightarrow> [[c]] | p # ps \<Rightarrow> (c # p) # ps))"

fun joinWith :: "jsstring \<Rightarrow> jsstring list \<Rightarrow> jsstring" where
  "joinWith sep [] = []"
| "joinWith sep [p] = p"
| "joinWith sep (p # q # ps) = p @ sep @ joinWith sep (q # ps)"

text \<open>
  White space of ECMAScript (\<open>WhiteSpace\<close> and \<open>LineTerminator\<close>): what \<open>trim\<close> strips and
  what \<open>\s\<close> matches in a regular expression.
\<close>

definition isWhiteSpace :: "jschar \<Rightarrow> bool" where
  "isWhiteSpace c \<longleftrightarrow>
     (9 \<le> c \<and> c \<le> 13) \<or> c = 32 \<or> c = 160 \<or> c = 5760 \<or> (8192 \<le> c \<and> c \<le> 8202) \<or>
     c = 8232 \<or> c = 8233 \<or> c = 8239 \<or> c = 8287 \<or> c = 12288 \<or> c = 65279"

definition trimStart :: "jsstring \<Rightarrow> jsstring" where
  "trimStart s = dropWhile isWhiteSpace s"

definition trimEnd :: "jsstring \<Rightarrow> jsstring" where
  "trimEnd s = rev (dropWhile isWhiteSpace (rev s))"

definition trim :: "jsstring \<Rightarrow> jsstring" where
  "trim s = trimEnd (trimStart s)"

definition isUpper :: "jschar \<Rightarrow> bool" where
  "isUpper c \<longleftrightarrow> 65 \<le> c \<and> c \<le> 90"

definition isLower :: "jschar \<Rightarrow> bool" where
  "isLower c \<longleftrightarrow> 97 \<le> c \<and> c \<le> 122"

definition isDigit :: "jschar \<Rightarrow> bool" where
  "isDigit c \<longleftrightarrow> 48 \<le> c \<and> c \<le> 57"

text \<open>The character class \<open>[a-zA-Z0-9]\<close>.\<close>

definition isAlnum :: "jschar \<Rightarrow> bool" where
  "isAlnum c \<longleftrightarrow> isLower c \<or> isUpper c \<or> isDigit c"

definition hyphen :: jschar where
  "hyphen = 45"

text \<open>
  \<open>String.prototype.toLowerCase\<close> follows the case mappings of the Unicode character
  database, which are no part of the repository: the functions that call it take it as
  the parameter \<open>lower\<close>. \<open>lowerCaseMapping lower\<close> states the two facts about it that the
  theorems on slugs rely on: its result holds no capital letter of ASCII, and it leaves a
  string of ASCII characters without capital letters as it is. \<open>asciiLower\<close> is the
  restriction of the mapping to ASCII.
\<close>

definition lowerCaseMapping :: "(jsstring \<Rightarrow> jsstring) \<Rightarrow> bool" where
  "lowerCaseMapping lower \<longleftrightarrow>
     (\<forall>s. \<forall>c \<in> set (lower s). \<not> isUpper c) \<and>
     (\<forall>s. (\<forall>c \<in> set s. c < 128 \<and> \<not> isUpper c) \<longrightarrow> lower s = s)"

definition asciiLower :: "jsstring \<Rightarrow> jsstring" where
  "asciiLower s = map (\<lambda>c. if isUpper c then c + 32 else c) s"

section \<open>utils.ts: slugify\<close>

text \<open>
  \<open>.replace(/[^a-zA-Z0-9]+/g, "-")\<close>: scanning from the left, each longest run of
  characters outside the class is replaced by one hyphen.
\<close>

function replaceNonAlnum :: "jsstring \<Rightarrow> jsstring" where
  "replaceNonAlnum [] = []"
| "replaceNonAlnum (c # cs) =
     (if isAlnum c then c # replaceNonAlnum cs
      else hyphen # replaceNonAlnum (dropWhile (\<lambda>d. \<not> isAlnum d) cs))"
  by pat_completeness auto
termination
  by (relation "measure length") (auto simp: less_Suc_eq_le length_dropWhile_le)

text \<open>\<open>.replace(/^-+|-+$/g, "")\<close>: the hyphens at the start and those at the end go.\<close>

definition stripHyphens :: "jsstring \<Rightarrow> jsstring" where
  "stripHyphens s =
     rev (dropWhile (\<lambda>c. c = hyphen) (rev (dropWhile (\<lambda>c. c = hyphen) s)))"

definition slugify :: "(jsstring \<Rightarrow> jsstring) \<Rightarrow> jsstring \<Rightarrow> jsstring" where
  "slugify lower v =
     (let cleaned = stripHyphens (replaceNonAlnum (lower (trim v)))
      in if cleaned = [] then js ''skill'' else cleaned)"

text \<open>
  The derivation of a slug in the words of the specification: a run of characters that are
  not alphanumeric is collapsed while the string is read once, remembering whether the
  previous character belonged to a run.
\<close>

fun collapseRuns :: "bool \<Rightarrow> jsstring \<Rightarrow> jsstring" where
  "collapseRuns inRun [] = []"
| "collapseRuns inRun (c # cs) =
     (if isAlnum c then c # collapseRuns False cs
      else if inRun then collapseRuns True cs
      else hyphen # collapseRuns True cs)"

definition slugSpec :: "(jsstring \<Rightarrow> jsstring) \<Rightarrow> jsstring \<Rightarrow> jsstring" where
  "slugSpec lower v =
     (let collapsed = collapseRuns False (lower (trim v));
          stripped = rev (dropWhile (\<lambda>c. c = hyphen) (rev (dropWhile (\<lambda>c. c = hyphen) collapsed)))
      in if stripped = [] then js ''skill'' else stripped)"

definition isSlugChar :: "jschar \<Rightarrow> bool" where
  "isSlugChar c \<longleftrightarrow> isLower c \<or> isDigit c \<or> c = hyphen"

text \<open>A string in which every hyphen stands alone, between or next to alphanumerics.\<close>

fun singleHyphens :: "jsstring \<Rightarrow> bool" where
  "singleHyphens [] = True"
| "singleHyphens [c] = (isAlnum c \<or> c = hyphen)"
| "singleHyphens (c # d # cs) =
     ((isAlnum c \<or> (c = hyphen \<and> isAlnum d)) \<and> singleHyphens (d # cs))"

section \<open>Built-in encodings\<close>

text \<open>
  The errors a function of the program can throw. \<open>LibraryError\<close> carries the rendering
  (\<open>String(error)\<close>) of an exception thrown by the file system, the archive reader or the
  YAML parser.
\<close>

datatype error =
  URIError
| SkillError jsstring
| SkillValidationError jsstring
| LibraryError jsstring

text \<open>\<open>`${error}`\<close>: the name of the error class, a colon and the message.\<close>

fun errorToString :: "error \<Rightarrow> jsstring" where
  "errorToString URIError = js ''URIError: URI malformed''"
| "errorToString (SkillError m) = js ''SkillError: '' @ m"
| "errorToString (SkillValidationError m) = js ''SkillValidationError: '' @ m"
| "errorToString (LibraryError m) = m"

definition hexVal :: "jschar \<Rightarrow> nat option" where
  "hexVal c =
     (if 48 \<le> c \<and> c \<le> 57 then Some (c - 48)
      else if 65 \<le> c \<and> c \<le> 70 then Some (c - 55)
      else if 97 \<le> c \<and> c \<le> 102 then Some (c - 87)
      else None)"

definition hexOctet :: "jschar \<Rightarrow> jschar \<Rightarrow> byte option" where
  "hexOctet h1 h2 =
     (case hexVal h1 of None \<Rightarrow> None
      | Some a \<Rightarrow> (case hexVal h2 of None \<Rightarrow> None | Some b \<Rightarrow> Some (16 * a + b)))"

definition hexDigit :: "nat \<Rightarrow> jschar" where
  "hexDigit n = (if n < 10 then 48 + n else 55 + n)"

definition isContinuation :: "byte \<Rightarrow> bool" where
  "isContinuation b \<longleftrightarrow> 128 \<le> b \<and> b \<le> 191"

text \<open>
  The code point that a sequence of octets encodes in well-formed UTF-8: no overlong
  form, no surrogate, nothing above U+10FFFF.
\<close>

fun utf8CodePoint :: "byte list \<Rightarrow> nat option" where
  "utf8CodePoint [b0] = (if b0 < 128 then Some b0 else None)"
| "utf8CodePoint [b0, b1] =
     (if 194 \<le> b0 \<and> b0 \<le> 223 \<and> isContinuation b1
      then Some ((b0 - 192) * 64 + (b1 - 128)) else None)"
| "utf8CodePoint [b0, b1, b2] =
     (let cp = (b0 - 224) * 4096 + (b1 - 128) * 64 + (b2 - 128)
      in if 224 \<le> b0 \<and> b0 \<le> 239 \<and> isContinuation b1 \<and> isContinuation b2 \<and>
            2048 \<le> cp \<and> \<not> (55296 \<le> cp \<and> cp \<le> 57343)
         then Some cp else None)"
| "utf8CodePoint [b0, b1, b2, b3] =
     (let cp = (b0 - 240) * 262144 + (b1 - 128) * 4096 + (b2 - 128) * 64 + (b3 - 128)
      in if 240 \<le> b0 \<and> b0 \<le> 244 \<and> isContinuation b1 \<and> isContinuation b2 \<and>
            isContinuation b3 \<and> 65536 \<le> cp \<and> cp \<le> 1114111
         then Some cp else None)"
| "utf8CodePoint _ = None"

definition utf8Encode :: "nat \<Rightarrow> byte list" where
  "utf8Encode cp =
     (if cp < 128 then [cp]
      else if cp < 2048 then [192 + cp div 64, 128 + cp mod 64]
      else if cp < 65536 then [224 + cp div 4096, 128 + (cp div 64) mod 64, 128 + cp mod 64]
      else [240 + cp div 262144, 128 + (cp div 4096) mod 64, 128 + (cp div 64) mod 64,
            128 + cp mod 64])"

definition utf16Encode :: "nat \<Rightarrow> jsstring" where
  "utf16Encode cp =
     (if cp < 65536 then [cp]
      else [55296 + (cp - 65536) div 1024, 56320 + (cp - 65536) mod 1024])"

text \<open>
  \<open>Buffer.prototype.toString("utf-8")\<close>, which is also how \<open>fs.readFileSync(p, "utf-8")\<close> and
  the text of an archive member are decoded. It never throws: each maximal ill-formed part
  of the input becomes U+FFFD, and decoding goes on with the octet that ended it.
  \<open>utf8Continue n cp lo hi bs\<close> reads the \<open>n\<close> octets that must follow a lead octet.
\<close>

fun utf8Continue :: "nat \<Rightarrow> nat \<Rightarrow> byte \<Rightarrow> byte \<Rightarrow> buffer \<Rightarrow> nat option \<times> buffer" where
  "utf8Continue 0 cp lo hi bs = (Some cp, bs)"
| "utf8Continue (Suc n) cp lo hi [] = (None, [])"
| "utf8Continue (Suc n) cp lo hi (b # bs) =
     (if lo \<le> b \<and> b \<le> hi then utf8Continue n (cp * 64 + (b - 128)) 128 191 bs
      else (None, b # bs))"

definition utf8Lead :: "byte \<Rightarrow> (nat \<times> nat \<times> byte \<times> byte) option" where
  "utf8Lead b =
     (if 194 \<le> b \<and> b \<le> 223 then Some (1, b - 192, 128, 191)
      else if b = 224 then Some (2, 0, 160, 191)
      else if b = 237 then Some (2, 13, 128, 159)
      else if 225 \<le> b \<and> b \<le> 239 then Some (2, b - 224, 128, 191)
      else if b = 240 then Some (3, 0, 144, 191)
      else if 241 \<le> b \<and> b \<le> 243 then Some (3, b - 240, 128, 191)
      else if b = 244 then Some (3, 4, 128, 143)
      else None)"

function utf8Decode :: "buffer \<Rightarrow> jsstring" where
  "utf8Decode [] = []"
| "utf8Decode (b # bs) =
     (if b < 128 then b # utf8Decode bs
      else (case utf8Lead b of
              None \<Rightarrow> 65533 # utf8Decode bs
            | Some (n, cp, lo, hi) \<Rightarrow>
                (case utf8Continue n cp lo hi bs of
                   (Some c, rest) \<Rightarrow> utf16Encode c @ utf8Decode rest
                 | (None, rest) \<Rightarrow> 65533 # utf8Decode rest)))"
  by pat_completeness auto
termination
proof -
  have len: "length (snd (utf8Continue n cp lo hi bs)) \<le> length bs" for n cp lo hi bs
    by (induction n cp lo hi bs rule: utf8Continue.induct) auto
  have "length rest < Suc (length bs)" if "(r, rest) = utf8Continue n cp lo hi bs"
    for n cp lo hi bs r rest
    using len[of n cp lo hi bs] that[symmetric] by simp
  then show ?thesis
    by (relation "measure length") auto
qed

definition bufferToString :: "buffer \<Rightarrow> error + jsstring" where
  "bufferToString buffer = Inr (utf8Decode buffer)"

text \<open>\<open>Buffer.prototype.toString("base64")\<close>.\<close>

definition base64Char :: "nat \<Rightarrow> jschar" where
  "base64Char n =
     (if n < 26 then 65 + n else if n < 52 then 71 + n else if n < 62 then n - 4
      else if n = 62 then 43 else 47)"

fun base64 :: "buffer \<Rightarrow> jsstring" where
  "base64 [] = []"
| "base64 [a] = [base64Char (a div 4), base64Char ((a mod 4) * 16), 61, 61]"
| "base64 [a, b] =
     [base64Char (a div 4), base64Char ((a mod 4) * 16 + b div 16),
      base64Char ((b mod 16) * 4), 61]"
| "base64 (a # b # c # rest) =
     [base64Char (a div 4), base64Char ((a mod 4) * 16 + b div 16),
      base64Char ((b mod 16) * 4 + c div 64), base64Char (c mod 64)] @ base64 rest"

text \<open>
  \<open>encodeURIComponent\<close>: a character outside the unreserved set is written as the
  percent-escaped octets of its UTF-8 form; a surrogate without its partner throws.
\<close>

definition isUnreserved :: "jschar \<Rightarrow> bool" where
  "isUnreserved c \<longleftrightarrow>
     isAlnum c \<or> c = 45 \<or> c = 95 \<or> c = 46 \<or> c = 33 \<or> c = 126 \<or> c = 42 \<or> c = 39 \<or>
     c = 40 \<or> c = 41"

definition percentEscape :: "byte list \<Rightarrow> jsstring" where
  "percentEscape bs = concat (map (\<lambda>b. [37, hexDigit (b div 16), hexDigit (b mod 16)]) bs)"

definition isHighSurrogate :: "jschar \<Rightarrow> bool" where
  "isHighSurrogate c \<longleftrightarrow> 55296 \<le> c \<and> c \<le> 56319"

definition isLowSurrogate :: "jschar \<Rightarrow> bool" where
  "isLowSurrogate c \<longleftrightarrow> 56320 \<le> c \<and> c \<le> 57343"

fun encodeURIComponent :: "jsstring \<Rightarrow> error + jsstring" where
  "encodeURIComponent [] = Inr []"
| "encodeURIComponent (c # cs) =
     (if isUnreserved c then
        (case encodeURIComponent cs of Inl e \<Rightarrow> Inl e | Inr r \<Rightarrow> Inr (c # r))
      else if isLowSurrogate c then Inl URIError
      else if isHighSurrogate c then
        (case cs of
           [] \<Rightarrow> Inl URIError
         | d # ds \<Rightarrow>
             if isLowSurrogate d then
               (case encodeURIComponent ds of
                  Inl e \<Rightarrow> Inl e
                | Inr r \<Rightarrow>
                    Inr (percentEscape
                           (utf8Encode (65536 + (c - 55296) * 1024 + (d - 56320))) @ r))
             else Inl URIError)
      else
        (case encodeURIComponent cs of
           Inl e \<Rightarrow> Inl e
         | Inr r \<Rightarrow> Inr (percentEscape (utf8Encode c) @ r)))"

text \<open>
  \<open>decodeURIComponent\<close>: a percent sign must be followed by two hexadecimal digits, and
  an octet above 127 must start a well-formed UTF-8 sequence whose other octets are
  escaped as well; anything else throws \<open>URIError\<close>.
\<close>

fun takeOctets :: "nat \<Rightarrow> jsstring \<Rightarrow> (byte list \<times> jsstring) option" where
  "takeOctets 0 s = Some ([], s)"
| "takeOctets (Suc n) (p # h1 # h2 # rest) =
     (if p = 37 then
        (case hexOctet h1 h2 of
           None \<Rightarrow> None
         | Some b \<Rightarrow>
             (case takeOctets n rest of None \<Rightarrow> None | Some (bs, r) \<Rightarrow> Some (b # bs, r)))
      else None)"
| "takeOctets (Suc n) s = None"

definition leadingOnes :: "byte \<Rightarrow> nat" where
  "leadingOnes b =
     (if b < 128 then 0 else if b < 192 then 1 else if b < 224 then 2
      else if b < 240 then 3 else if b < 248 then 4 else 5)"

function decodeURIComponent :: "jsstring \<Rightarrow> error + jsstring" where
  "decodeURIComponent [] = Inr []"
| "decodeURIComponent (c # cs) =
     (if c \<noteq> 37 then
        (case decodeURIComponent cs of Inl e \<Rightarrow> Inl e | Inr r \<Rightarrow> Inr (c # r))
      else
        (case cs of
           h1 # h2 # rest \<Rightarrow>
             (case hexOctet h1 h2 of
                None \<Rightarrow> Inl URIError
              | Some b \<Rightarrow>
                  if leadingOnes b = 0 then
                    (case decodeURIComponent rest of Inl e \<Rightarrow> Inl e | Inr r \<Rightarrow> Inr (b # r))
                  else if leadingOnes b = 1 \<or> leadingOnes b > 4 then Inl URIError
                  else
                    (case takeOctets (leadingOnes b - 1) rest of
                       None \<Rightarrow> Inl URIError
                     | Some (bs, rest') \<Rightarrow>
                         (case utf8CodePoint (b # bs) of
                            None \<Rightarrow> Inl URIError
                          | Some cp \<Rightarrow>
                              (case decodeURIComponent rest' of
                                 Inl e \<Rightarrow> Inl e
                               | Inr r \<Rightarrow> Inr (utf16Encode cp @ r)))))
         | _ \<Rightarrow> Inl URIError))"
  by pat_completeness auto
termination
proof -
  have len: "takeOctets n s = Some (bs, r) \<Longrightarrow> length r \<le> length s" for n s bs r
  proof (induction n arbitrary: s bs r)
    case 0
    then show ?case by simp
  next
    case (Suc n)
    show ?case
    proof (cases "(Suc n, s)" rule: takeOctets.cases)
      case (2 m p h1 h2 rest)
      with Suc.prems obtain bs' where "takeOctets n rest = Some (bs', r)"
        by (auto split: if_splits option.splits)
      then have "length r \<le> length rest" by (rule Suc.IH)
      with 2 show ?thesis by simp
    qed (use Suc.prems in auto)
  qed
  show ?thesis
    by (relation "measure length") (auto dest: len)
qed

section \<open>types.ts: the data model\<close>

text \<open>
  A value loaded from a YAML header. A number is \<open>NaN\<close>, an infinity or a finite number
  given by a mantissa and a binary exponent; \<open>JExotic\<close> stands for any other object the
  parser can build (a date, a binary buffer), of which the program reads no property.
\<close>

datatype jsnumber = NaN | Infinite bool | Finite int int

datatype jsval =
  JUndefined
| JNull
| JBool bool
| JNum jsnumber
| JStr jsstring
| JArr "jsval list"
| JObj "(jsstring \<times> jsval) list"
| JExotic jsstring

record SkillMetadata =
  name :: jsstring
  description :: jsstring
  license :: "jsstring option"
  allowedTools :: "jsstring list"
  extra :: "(jsstring \<times> jsval) list"

record Skill =
  slug :: jsstring
  directory :: jsstring
  instructionsPath :: jsstring
  metadata :: SkillMetadata
  resources :: "jsstring list"
  zipPath :: "jsstring option"
  zipRootPrefix :: "jsstring option"

text \<open>
  What \<open>fetchResource\<close> returns: \<open>SkillResourceMetadata\<close> (\<open>uri\<close>, \<open>name\<close>, \<open>mimeType\<close>) with
  \<open>content\<close> and \<open>encoding\<close>. The field \<open>name\<close> of the source is \<open>resourceName\<close> here.
\<close>

record SkillResource =
  uri :: jsstring
  resourceName :: jsstring
  mimeType :: "jsstring option"
  content :: jsstring
  encoding :: jsstring

section \<open>The platform\<close>

text \<open>
  The file system, the archive reader, the YAML parser and the path functions of Node are
  not code of the repository. The program is modelled over a record of them: each field is
  the function of the same name, a result \<open>Inl m\<close> is an exception whose rendering is \<open>m\<close>.
  The file system does not change while the program runs. The entries of an archive are
  an association list from member names to \<open>ZipObject\<close>s, as \<open>zip.files\<close>.
\<close>

datatype stats = StatFile | StatDirectory | StatOther

record ZipObject =
  dir :: bool
  async :: "jsstring + buffer"

record platform =
  String_toLowerCase :: "jsstring \<Rightarrow> jsstring"
  String_of :: "jsval \<Rightarrow> jsstring"
  yaml_load :: "jsstring \<Rightarrow> jsstring + jsval"
  path_join :: "jsstring \<Rightarrow> jsstring \<Rightarrow> jsstring"
  path_resolve :: "jsstring \<Rightarrow> jsstring"
  path_basename :: "jsstring \<Rightarrow> jsstring"
  path_dirname :: "jsstring \<Rightarrow> jsstring"
  path_extname :: "jsstring \<Rightarrow> jsstring"
  fs_existsSync :: "jsstring \<Rightarrow> bool"
  fs_statSync :: "jsstring \<Rightarrow> jsstring + stats"
  fs_readdirSync :: "jsstring \<Rightarrow> jsstring + jsstring list"
  fs_readFileSync :: "jsstring \<Rightarrow> jsstring + buffer"
  JSZip_loadAsync :: "buffer \<Rightarrow> jsstring + (jsstring \<times> ZipObject) list"

text \<open>The accesses to the file system and to archives, in the order they happen.\<close>

datatype access =
  ReadFile jsstring
| Exists jsstring
| Stat jsstring
| Readdir jsstring
| ZipLoad
| ZipRead jsstring

section \<open>utils.ts: files, MIME types, encodings\<close>

definition SKILL_MARKDOWN :: jsstring where
  "SKILL_MARKDOWN = js ''SKILL.md''"

definition mimeTypes :: "(jsstring \<times> jsstring) list" where
  "mimeTypes =
     [(js ''.txt'', js ''text/plain''), (js ''.md'', js ''text/markdown''),
      (js ''.py'', js ''text/x-python''), (js ''.js'', js ''text/javascript''),
      (js ''.ts'', js ''text/typescript''), (js ''.json'', js ''application/json''),
      (js ''.yaml'', js ''text/yaml''), (js ''.yml'', js ''text/yaml''),
      (js ''.xml'', js ''text/xml''), (js ''.html'', js ''text/html''),
      (js ''.css'', js ''text/css''), (js ''.sh'', js ''application/x-sh''),
      (js ''.bin'', js ''application/octet-stream''),
      (js ''.dat'', js ''application/octet-stream''), (js ''.png'', js ''image/png''),
      (js ''.jpg'', js ''image/jpeg''), (js ''.jpeg'', js ''image/jpeg''),
      (js ''.gif'', js ''image/gif''), (js ''.svg'', js ''image/svg+xml''),
      (js ''.pdf'', js ''application/pdf'')]"

definition getExtension :: "platform \<Rightarrow> jsstring \<Rightarrow> jsstring" where
  "getExtension P filePath = path_extname P filePath"

definition detectMimeType :: "platform \<Rightarrow> jsstring \<Rightarrow> jsstring option" where
  "detectMimeType P filePath =
     (let ext = String_toLowerCase P (getExtension P filePath) in map_of mimeTypes ext)"

definition isZipFile :: "platform \<Rightarrow> jsstring \<Rightarrow> bool" where
  "isZipFile P filePath =
     (let ext = String_toLowerCase P (getExtension P filePath)
      in ext = js ''.zip'' \<or> ext = js ''.skill'')"

definition encodeBase64 :: "buffer \<Rightarrow> jsstring" where
  "encodeBase64 buf = base64 buf"

text \<open>
  \<open>isValidUtf8\<close>: \<open>true\<close> when \<open>buffer.toString("utf-8")\<close> returns, \<open>false\<close> when it throws.
\<close>

definition isValidUtf8 :: "buffer \<Rightarrow> bool" where
  "isValidUtf8 buffer = (case bufferToString buffer of Inr _ \<Rightarrow> True | Inl _ \<Rightarrow> False)"

text \<open>
  Strict validity, for comparison: the octets split into well-formed UTF-8 sequences.
\<close>

fun wellFormedUtf8 :: "buffer \<Rightarrow> bool" where
  "wellFormedUtf8 [] = True"
| "wellFormedUtf8 (b # bs) =
     (if b < 128 then wellFormedUtf8 bs
      else if b < 224 then utf8CodePoint (b # take 1 bs) \<noteq> None \<and> wellFormedUtf8 (drop 1 bs)
      else if b < 240 then utf8CodePoint (b # take 2 bs) \<noteq> None \<and> wellFormedUtf8 (drop 2 bs)
      else utf8CodePoint (b # take 3 bs) \<noteq> None \<and> wellFormedUtf8 (drop 3 bs))"

section \<open>utils.ts: parseSkillMd\<close>

text \<open>
  \<open>FRONT_MATTER_PATTERN = /^---\s*\n([\s\S]*?)\n---\s*\n([\s\S]*)/\<close>, matched as a backtracking
  matcher does. \<open>closeTail\<close> matches \<open>\s*\n([\s\S]*)\<close>: the greedy \<open>\s*\<close> gives characters back
  until a line feed follows, so the body starts after the last line feed of the white space.
  \<open>findClose\<close> lets the lazy first group grow by one character at a time until the closing
  marker matches. \<open>openAt\<close> tries the ends of the first \<open>\s*\<close>, the longest first.
\<close>

definition closeTail :: "jsstring \<Rightarrow> jsstring option" where
  "closeTail u =
     (let w = takeWhile isWhiteSpace u;
          upto = rev (dropWhile (\<lambda>c. c \<noteq> 10) (rev w))
      in if upto = [] then None else Some (drop (length upto) u))"

fun findClose :: "jsstring \<Rightarrow> jsstring \<Rightarrow> (jsstring \<times> jsstring) option" where
  "findClose acc [] = None"
| "findClose acc (c # cs) =
     (if startsWith (c # cs) (10 # js ''---'') then
        (case closeTail (drop 4 (c # cs)) of
           Some rest \<Rightarrow> Some (rev acc, rest)
         | None \<Rightarrow> findClose (c # acc) cs)
      else findClose (c # acc) cs)"

fun openAt :: "nat \<Rightarrow> jsstring \<Rightarrow> (jsstring \<times> jsstring) option" where
  "openAt 0 r = None"
| "openAt (Suc k) r =
     (if r ! k = 10 then
        (case findClose [] (drop (Suc k) r) of
           Some m \<Rightarrow> Some m
         | None \<Rightarrow> openAt k r)
      else openAt k r)"

definition frontMatterMatch :: "jsstring \<Rightarrow> (jsstring \<times> jsstring) option" where
  "frontMatterMatch text =
     (if startsWith text (js ''---'')
      then openAt (length (takeWhile isWhiteSpace (drop 3 text))) (drop 3 text)
      else None)"

text \<open>Truthiness, \<open>typeof\<close>, the read of a property, and \<open>String(v)\<close>.\<close>

fun truthy :: "jsval \<Rightarrow> bool" where
  "truthy JUndefined = False"
| "truthy JNull = False"
| "truthy (JBool b) = b"
| "truthy (JNum NaN) = False"
| "truthy (JNum (Infinite s)) = True"
| "truthy (JNum (Finite m e)) = (m \<noteq> 0)"
| "truthy (JStr s) = (s \<noteq> [])"
| "truthy (JArr xs) = True"
| "truthy (JObj kvs) = True"
| "truthy (JExotic d) = True"

fun typeof :: "jsval \<Rightarrow> jsstring" where
  "typeof JUndefined = js ''undefined''"
| "typeof (JBool b) = js ''boolean''"
| "typeof (JNum n) = js ''number''"
| "typeof (JStr s) = js ''string''"
| "typeof v = js ''object''"

fun getProp :: "jsval \<Rightarrow> jsstring \<Rightarrow> jsval" where
  "getProp (JObj kvs) k = (case map_of kvs k of None \<Rightarrow> JUndefined | Some v \<Rightarrow> v)"
| "getProp v k = JUndefined"

fun entries :: "jsval \<Rightarrow> (jsstring \<times> jsval) list" where
  "entries (JObj kvs) = kvs"
| "entries v = []"

definition orElse :: "jsval \<Rightarrow> jsval \<Rightarrow> jsval" where
  "orElse a b = (if truthy a then a else b)"

definition toStr :: "platform \<Rightarrow> jsval \<Rightarrow> jsstring" where
  "toStr P v = (case v of JStr s \<Rightarrow> s | _ \<Rightarrow> String_of P v)"

record ParsedSkillMd =
  meta :: SkillMetadata
  body :: jsstring

definition label :: "jsstring option \<Rightarrow> jsstring" where
  "label filePath =
     (case filePath of None \<Rightarrow> js ''SKILL.md''
      | Some p \<Rightarrow> if p \<noteq> [] then p else js ''SKILL.md'')"

definition parseAllowedTools :: "platform \<Rightarrow> jsval \<Rightarrow> jsstring list" where
  "parseAllowedTools P allowed =
     (case allowed of
        JStr s \<Rightarrow> filter (\<lambda>part. part \<noteq> []) (map trim (splitOn 44 s))
      | JArr xs \<Rightarrow> filter (\<lambda>item. item \<noteq> []) (map (\<lambda>item. trim (toStr P item)) xs)
      | _ \<Rightarrow> [])"

definition knownKeys :: "jsstring list" where
  "knownKeys =
     [js ''name'', js ''description'', js ''license'', js ''allowed-tools'',
      js ''allowed_tools'']"

definition parseSkillMd ::
  "platform \<Rightarrow> jsstring \<Rightarrow> jsstring option \<Rightarrow> error + ParsedSkillMd" where
  "parseSkillMd P text filePath =
     (case frontMatterMatch text of
        None \<Rightarrow>
          Inl (SkillValidationError
                 (label filePath @ js '' must begin with YAML front matter delimited by ''
                    @ [39] @ js ''---'' @ [39] @ js ''.''))
      | Some (frontMatter, rest) \<Rightarrow>
          (case yaml_load P frontMatter of
             Inl e \<Rightarrow>
               Inl (SkillValidationError
                      (js ''Unable to parse YAML in '' @ label filePath @ js '': '' @ e))
           | Inr loaded \<Rightarrow>
               (let data = orElse loaded (JObj []) in
                if typeof data \<noteq> js ''object'' \<or> data = JNull then
                  Inl (SkillValidationError
                         (js ''Front matter in '' @ label filePath
                            @ js '' must define a mapping, not '' @ typeof data @ js ''.''))
                else
                  (let nm = trim (toStr P (orElse (getProp data (js ''name'')) (JStr [])));
                       descr =
                         trim (toStr P (orElse (getProp data (js ''description'')) (JStr [])))
                   in if nm = [] then
                        Inl (SkillValidationError
                               (js ''Front matter in '' @ label filePath
                                  @ js '' is missing '' @ [39] @ js ''name'' @ [39] @ js ''.''))
                      else if descr = [] then
                        Inl (SkillValidationError
                               (js ''Front matter in '' @ label filePath
                                  @ js '' is missing '' @ [39] @ js ''description'' @ [39]
                                  @ js ''.''))
                      else
                        (let allowed =
                               orElse (getProp data (js ''allowed-tools''))
                                 (orElse (getProp data (js ''allowed_tools''))
                                    (orElse (getProp data (js ''allowed-tools'')) (JArr [])))
                         in Inr \<lparr>meta =
                                    \<lparr>name = nm, description = descr,
                                     license =
                                       (if truthy (getProp data (js ''license''))
                                        then Some (trim (toStr P (getProp data (js ''license''))))
                                        else None),
                                     allowedTools = parseAllowedTools P allowed,
                                     extra =
                                       filter (\<lambda>(k, v). k \<notin> set knownKeys) (entries data)\<rparr>,
                                  body = trimStart rest\<rparr>)))))"





section \<open>utils.ts: files\<close>

definition existsSync :: "platform \<Rightarrow> jsstring \<Rightarrow> bool" where
  "existsSync P filePath = fs_existsSync P filePath"

definition isDirectory :: "platform \<Rightarrow> jsstring \<Rightarrow> error + bool" where
  "isDirectory P filePath =
     (case fs_statSync P filePath of
        Inl e \<Rightarrow> Inl (LibraryError e)
      | Inr st \<Rightarrow> Inr (st = StatDirectory))"

definition isFile :: "platform \<Rightarrow> jsstring \<Rightarrow> error + bool" where
  "isFile P filePath =
     (case fs_statSync P filePath of
        Inl e \<Rightarrow> Inl (LibraryError e)
      | Inr st \<Rightarrow> Inr (st = StatFile))"

definition joinPath :: "platform \<Rightarrow> jsstring \<Rightarrow> jsstring \<Rightarrow> jsstring" where
  "joinPath P a b = path_join P a b"

definition readFileSync :: "platform \<Rightarrow> jsstring \<Rightarrow> error + jsstring" where
  "readFileSync P filePath =
     (case fs_readFileSync P filePath of
        Inl e \<Rightarrow> Inl (LibraryError e)
      | Inr bytes \<Rightarrow> Inr (utf8Decode bytes))"

text \<open>
  \<open>getAllFiles\<close>: the files below a directory, in the order \<open>readdirSync\<close> lists them. The
  recursion follows the file system, which need not be a finite tree: the first argument
  bounds the depth, and \<open>None\<close> says that the bound was reached.
\<close>

fun traverse ::
  "nat \<Rightarrow> platform \<Rightarrow> (jsstring \<Rightarrow> bool) \<Rightarrow> jsstring \<Rightarrow> jsstring list \<Rightarrow>
   (error + jsstring list) option"
and traverseEntries ::
  "nat \<Rightarrow> platform \<Rightarrow> (jsstring \<Rightarrow> bool) \<Rightarrow> jsstring \<Rightarrow> jsstring list \<Rightarrow> jsstring list \<Rightarrow>
   (error + jsstring list) option" where
  "traverse 0 P exclude currentPath files = None"
| "traverse (Suc n) P exclude currentPath files =
     (case fs_readdirSync P currentPath of
        Inl e \<Rightarrow> Some (Inl (LibraryError e))
      | Inr es \<Rightarrow> traverseEntries n P exclude currentPath es files)"
| "traverseEntries n P exclude currentPath [] files = Some (Inr files)"
| "traverseEntries n P exclude currentPath (entry # es) files =
     (let fullPath = joinPath P currentPath entry in
      if exclude fullPath then traverseEntries n P exclude currentPath es files
      else
        (case isDirectory P fullPath of
           Inl e \<Rightarrow> Some (Inl e)
         | Inr True \<Rightarrow>
             (case traverse n P exclude fullPath files of
                None \<Rightarrow> None
              | Some (Inl e) \<Rightarrow> Some (Inl e)
              | Some (Inr files') \<Rightarrow> traverseEntries n P exclude currentPath es files')
         | Inr False \<Rightarrow>
             (case isFile P fullPath of
                Inl e \<Rightarrow> Some (Inl e)
              | Inr True \<Rightarrow> traverseEntries n P exclude currentPath es (files @ [fullPath])
              | Inr False \<Rightarrow> traverseEntries n P exclude currentPath es files)))"

definition getAllFiles ::
  "nat \<Rightarrow> platform \<Rightarrow> jsstring \<Rightarrow> (jsstring \<Rightarrow> bool) \<Rightarrow> (error + jsstring list) option" where
  "getAllFiles n P dirPath exclude = traverse n P exclude dirPath []"

section \<open>registry.ts: lookup\<close>

text \<open>
  The two indexes of the registry are \<open>Map\<close>s: association lists in the order of insertion.
  \<open>journal\<close> is no field of the source: it records, in order, the calls of the scan
  (which directory was entered, which directory or archive was tried as a skill).
\<close>

datatype visit = ScanDir jsstring | DirSkill jsstring | ZipSkill jsstring

record SkillRegistry =
  root :: jsstring
  skillsBySlug :: "(jsstring \<times> Skill) list"
  skillsByName :: "(jsstring \<times> Skill) list"
  journal :: "visit list"

definition skills :: "SkillRegistry \<Rightarrow> Skill list" where
  "skills R = map snd (skillsBySlug R)"

definition has :: "(jsstring \<times> Skill) list \<Rightarrow> jsstring \<Rightarrow> bool" where
  "has m k = (map_of m k \<noteq> None)"

definition registryGet :: "SkillRegistry \<Rightarrow> jsstring \<Rightarrow> error + Skill" where
  "registryGet R s =
     (case map_of (skillsBySlug R) s of
        None \<Rightarrow> Inl (SkillError (js ''Unknown skill '' @ [39] @ s @ [39]))
      | Some skill \<Rightarrow> Inr skill)"

section \<open>registry.ts: discovery\<close>

text \<open>\<open>Map.prototype.set\<close>: the value of a key already there is replaced in place, a new key
  goes to the end.\<close>

fun mapSet :: "(jsstring \<times> Skill) list \<Rightarrow> jsstring \<Rightarrow> Skill \<Rightarrow> (jsstring \<times> Skill) list" where
  "mapSet [] k v = [(k, v)]"
| "mapSet ((k', v') # m) k v = (if k' = k then (k, v) # m else (k', v') # mapSet m k v)"

definition visited :: "visit \<Rightarrow> SkillRegistry \<Rightarrow> SkillRegistry" where
  "visited v R = R\<lparr>journal := journal R @ [v]\<rparr>"

definition collectResources ::
  "nat \<Rightarrow> platform \<Rightarrow> jsstring \<Rightarrow> (error + jsstring list) option" where
  "collectResources n P dirPath =
     (let skillMdPath = joinPath P dirPath SKILL_MARKDOWN
      in getAllFiles n P dirPath (\<lambda>filePath. filePath = skillMdPath))"

text \<open>
  \<open>registerDirSkill\<close>: its body is one \<open>try\<close> block, so every exception ends in the registry
  as it was. \<open>None\<close> is the depth bound of \<open>getAllFiles\<close>.
\<close>

definition registerDirSkill ::
  "nat \<Rightarrow> platform \<Rightarrow> jsstring \<Rightarrow> jsstring \<Rightarrow> SkillRegistry \<Rightarrow> SkillRegistry option" where
  "registerDirSkill n P dirPath skillMdPath R0 =
     (let R = visited (DirSkill dirPath) R0 in
      case readFileSync P skillMdPath of
        Inl e \<Rightarrow> Some R
      | Inr text \<Rightarrow>
          (case parseSkillMd P text (Some skillMdPath) of
             Inl e \<Rightarrow> Some R
           | Inr parsed \<Rightarrow>
               (let slg = slugify (String_toLowerCase P) (name (meta parsed)) in
                if has (skillsBySlug R) slg then Some R
                else if has (skillsByName R) (name (meta parsed)) then Some R
                else
                  (case collectResources n P dirPath of
                     None \<Rightarrow> None
                   | Some (Inl e) \<Rightarrow> Some R
                   | Some (Inr files) \<Rightarrow>
                       (let skill =
                              \<lparr>slug = slg, directory = path_resolve P dirPath,
                               instructionsPath = path_resolve P skillMdPath,
                               metadata = meta parsed, resources = files,
                               zipPath = None, zipRootPrefix = None\<rparr>
                        in Some (R\<lparr>skillsBySlug := mapSet (skillsBySlug R) slg skill,
                                   skillsByName :=
                                     mapSet (skillsByName R) (name (meta parsed)) skill\<rparr>))))))"

text \<open>
  Where \<open>tryRegisterZipSkill\<close> looks for \<open>SKILL.md\<close> in an archive: the member path and the
  root prefix, or nothing. \<open>topLevelDirs\<close> is the set of first segments of the member names
  that hold a slash.
\<close>

definition fileNames :: "(jsstring \<times> ZipObject) list \<Rightarrow> jsstring list" where
  "fileNames files = map fst (filter (\<lambda>(nm, f). \<not> dir f) files)"

definition topLevelDirs :: "(jsstring \<times> ZipObject) list \<Rightarrow> jsstring list" where
  "topLevelDirs files =
     remdups (map (\<lambda>nm. hd (splitOn 47 nm)) (filter (\<lambda>nm. 47 \<in> set nm) (map fst files)))"

definition locateSkillMd :: "(jsstring \<times> ZipObject) list \<Rightarrow> (jsstring \<times> jsstring) option" where
  "locateSkillMd files =
     (if SKILL_MARKDOWN \<in> set (fileNames files) then Some (SKILL_MARKDOWN, [])
      else
        (case topLevelDirs files of
           [topDir] \<Rightarrow>
             (let candidate = topDir @ js ''/'' @ SKILL_MARKDOWN in
              if candidate \<in> set (fileNames files) then Some (candidate, topDir @ js ''/'')
              else None)
         | _ \<Rightarrow> None))"

definition tryRegisterZipSkill :: "platform \<Rightarrow> jsstring \<Rightarrow> SkillRegistry \<Rightarrow> SkillRegistry" where
  "tryRegisterZipSkill P zp R0 =
     (let R = visited (ZipSkill zp) R0 in
      case fs_readFileSync P zp of
        Inl e \<Rightarrow> R
      | Inr zipData \<Rightarrow>
          (case JSZip_loadAsync P zipData of
             Inl e \<Rightarrow> R
           | Inr files \<Rightarrow>
               (case locateSkillMd files of
                  None \<Rightarrow> R
                | Some (skillMdPath, pre) \<Rightarrow>
                    (case map_of files skillMdPath of
                       None \<Rightarrow> R
                     | Some skillMdFile \<Rightarrow>
                         (case async skillMdFile of
                            Inl e \<Rightarrow> R
                          | Inr bytes \<Rightarrow>
                              (case parseSkillMd P (utf8Decode bytes) (Some skillMdPath) of
                                 Inl e \<Rightarrow> R
                               | Inr parsed \<Rightarrow>
                                   (let slg = slugify (String_toLowerCase P) (name (meta parsed))
                                    in if has (skillsBySlug R) slg then R
                                       else if has (skillsByName R) (name (meta parsed)) then R
                                       else
                                         (let skill =
                                                \<lparr>slug = slg,
                                                 directory = path_resolve P (path_dirname P zp),
                                                 instructionsPath = path_resolve P zp,
                                                 metadata = meta parsed, resources = [],
                                                 zipPath = Some (path_resolve P zp),
                                                 zipRootPrefix = Some pre\<rparr>
                                          in R\<lparr>skillsBySlug := mapSet (skillsBySlug R) slg skill,
                                               skillsByName :=
                                                 mapSet (skillsByName R) (name (meta parsed))
                                                   skill\<rparr>))))))))"

text \<open>
  The second loop of \<open>scanDirectory\<close>: each entry that exists, is a file and has the
  extension of an archive is tried as a skill. \<open>isFile\<close> can throw.
\<close>

fun registerZips ::
  "platform \<Rightarrow> jsstring \<Rightarrow> jsstring list \<Rightarrow> SkillRegistry \<Rightarrow> error + SkillRegistry" where
  "registerZips P dirPath [] R = Inr R"
| "registerZips P dirPath (entry # es) R =
     (let fullPath = joinPath P dirPath entry in
      if \<not> existsSync P fullPath then registerZips P dirPath es R
      else
        (case isFile P fullPath of
           Inl e \<Rightarrow> Inl e
         | Inr False \<Rightarrow> registerZips P dirPath es R
         | Inr True \<Rightarrow>
             if isZipFile P fullPath
             then registerZips P dirPath es (tryRegisterZipSkill P fullPath R)
             else registerZips P dirPath es R))"

text \<open>
  \<open>scanDirectory\<close>, with the first loop as \<open>scanSubdirs\<close>. The first argument bounds the
  depth of the recursion; \<open>None\<close> says that the bound was reached, \<open>Some (Inl e)\<close> that the
  scan threw \<open>e\<close>.
\<close>

fun scanDirectory ::
  "nat \<Rightarrow> platform \<Rightarrow> jsstring \<Rightarrow> SkillRegistry \<Rightarrow> (error + SkillRegistry) option"
and scanSubdirs ::
  "nat \<Rightarrow> platform \<Rightarrow> jsstring \<Rightarrow> jsstring list \<Rightarrow> SkillRegistry \<Rightarrow>
   (error + SkillRegistry) option" where
  "scanDirectory 0 P dirPath R0 = None"
| "scanDirectory (Suc n) P dirPath R0 =
     (let R = visited (ScanDir dirPath) R0;
          skillMdPath = joinPath P dirPath SKILL_MARKDOWN
      in case (if existsSync P skillMdPath then isFile P skillMdPath else Inr False) of
           Inl e \<Rightarrow> Some (Inl e)
         | Inr True \<Rightarrow>
             (case registerDirSkill n P dirPath skillMdPath R of
                None \<Rightarrow> None
              | Some R' \<Rightarrow> Some (Inr R'))
         | Inr False \<Rightarrow>
             (case fs_readdirSync P dirPath of
                Inl e \<Rightarrow> Some (Inr R)
              | Inr es \<Rightarrow>
                  (case scanSubdirs n P dirPath (sort es) R of
                     None \<Rightarrow> None
                   | Some (Inl e) \<Rightarrow> Some (Inl e)
                   | Some (Inr R') \<Rightarrow> Some (registerZips P dirPath (sort (sort es)) R'))))"
| "scanSubdirs n P dirPath [] R = Some (Inr R)"
| "scanSubdirs n P dirPath (entry # es) R =
     (let fullPath = joinPath P dirPath entry in
      case isDirectory P fullPath of
        Inl e \<Rightarrow> Some (Inl e)
      | Inr True \<Rightarrow>
          (case scanDirectory n P fullPath R of
             None \<Rightarrow> None
           | Some (Inl e) \<Rightarrow> Some (Inl e)
           | Some (Inr R') \<Rightarrow> scanSubdirs n P dirPath es R')
      | Inr False \<Rightarrow> scanSubdirs n P dirPath es R)"

definition load :: "nat \<Rightarrow> platform \<Rightarrow> SkillRegistry \<Rightarrow> (error + SkillRegistry) option" where
  "load n P R =
     (if \<not> existsSync P (root R) then
        Some (Inl (SkillError
                     (js ''Skills root '' @ root R
                        @ js '' does not exist or is not a directory.'')))
      else
        (case isDirectory P (root R) of
           Inl e \<Rightarrow> Some (Inl e)
         | Inr False \<Rightarrow>
             Some (Inl (SkillError
                          (js ''Skills root '' @ root R
                             @ js '' does not exist or is not a directory.'')))
         | Inr True \<Rightarrow>
             scanDirectory n P (path_resolve P (root R))
               (R\<lparr>skillsBySlug := [], skillsByName := [], journal := []\<rparr>)))"

section \<open>resources.ts\<close>

definition uriPrefix :: jsstring where
  "uriPrefix = js ''resource://skillz/''"

text \<open>\<open>.replace(/%2F/g, "/")\<close>.\<close>

fun restoreSlashes :: "jsstring \<Rightarrow> jsstring" where
  "restoreSlashes (a # b # c # cs) =
     (if a = 37 \<and> b = 50 \<and> c = 70 then 47 # restoreSlashes cs
      else a # restoreSlashes (b # c # cs))"
| "restoreSlashes cs = cs"

definition buildResourceUri :: "Skill \<Rightarrow> jsstring \<Rightarrow> error + jsstring" where
  "buildResourceUri skill relativePath =
     (case encodeURIComponent (slug skill) of
        Inl e \<Rightarrow> Inl e
      | Inr encodedSlug \<Rightarrow>
          (case encodeURIComponent relativePath of
             Inl e \<Rightarrow> Inl e
           | Inr encoded \<Rightarrow>
               Inr (uriPrefix @ encodedSlug @ js ''/'' @ restoreSlashes encoded)))"

definition getResourceName :: "Skill \<Rightarrow> jsstring \<Rightarrow> jsstring" where
  "getResourceName skill relativePath = slug skill @ js ''/'' @ relativePath"

definition makeErrorResource :: "jsstring \<Rightarrow> jsstring \<Rightarrow> SkillResource" where
  "makeErrorResource resourceUri message =
     (let pathPart = drop (length uriPrefix) resourceUri;
          nm = (if startsWith resourceUri uriPrefix \<and> pathPart \<noteq> [] then pathPart
                else js ''invalid resource'')
      in \<lparr>uri = resourceUri, resourceName = nm, mimeType = Some (js ''text/plain''),
          content = js ''Error: '' @ message, encoding = js ''utf-8''\<rparr>)"

text \<open>
  Lines 85 to 105 of \<open>fetchResource\<close>, which the specification calls parsing the URI: the
  URI is refused with a message, or decoding the slug throws, or the slug and the path
  remainder come out.
\<close>

datatype parsedUri = Refused jsstring | Thrown error | Parsed jsstring jsstring

definition parseResourceUri :: "jsstring \<Rightarrow> parsedUri" where
  "parseResourceUri resourceUri =
     (if \<not> startsWith resourceUri uriPrefix then
        Refused (js ''unsupported URI prefix. Expected resource://skillz/{skill-slug}/{path}'')
      else
        (let remainder = drop (length uriPrefix) resourceUri in
         if remainder = [] then Refused (js ''invalid resource URI format'')
         else
           (let parts = splitOn 47 remainder in
            if length parts < 2 \<or> hd parts = [] \<or> joinWith (js ''/'') (tl parts) = []
            then Refused (js ''invalid resource URI format'')
            else
              (case decodeURIComponent (hd parts) of
                 Inl e \<Rightarrow> Thrown e
               | Inr slg \<Rightarrow> Parsed slg (joinWith (js ''/'') (tl parts))))))"

text \<open>
  The \<open>try\<close> block of \<open>fetchResource\<close> (lines 125 to 166), with the accesses it makes: an
  exception caught by the \<open>catch\<close>, or an early return with a message, or the octets read.
\<close>

datatype readResult = Caught jsstring | NotServed jsstring | Data buffer

definition readZipResource ::
  "platform \<Rightarrow> jsstring \<Rightarrow> Skill \<Rightarrow> jsstring \<Rightarrow> access list \<times> readResult" where
  "readZipResource P zp skill relPathStr =
     (case fs_readFileSync P zp of
        Inl e \<Rightarrow> ([ReadFile zp], Caught e)
      | Inr zipData \<Rightarrow>
          (case JSZip_loadAsync P zipData of
             Inl e \<Rightarrow> ([ReadFile zp, ZipLoad], Caught e)
           | Inr files \<Rightarrow>
               (let zipMemberPath =
                      (case zipRootPrefix skill of
                         None \<Rightarrow> relPathStr
                       | Some pre \<Rightarrow> if pre \<noteq> [] then pre @ relPathStr else relPathStr)
                in case map_of files zipMemberPath of
                     None \<Rightarrow>
                       ([ReadFile zp, ZipLoad],
                        NotServed (js ''resource not found: '' @ relPathStr))
                   | Some file \<Rightarrow>
                       if dir file then
                         ([ReadFile zp, ZipLoad],
                          NotServed (js ''resource not found: '' @ relPathStr))
                       else
                         (case async file of
                            Inl e \<Rightarrow> ([ReadFile zp, ZipLoad, ZipRead zipMemberPath], Caught e)
                          | Inr data \<Rightarrow>
                              ([ReadFile zp, ZipLoad, ZipRead zipMemberPath], Data data)))))"

definition readDirResource ::
  "platform \<Rightarrow> Skill \<Rightarrow> jsstring \<Rightarrow> access list \<times> readResult" where
  "readDirResource P skill relPathStr =
     (let resourcePath = path_join P (directory skill) relPathStr;
          resolvedResourcePath = path_resolve P resourcePath;
          resolvedSkillDir = path_resolve P (directory skill)
      in if \<not> startsWith resolvedResourcePath resolvedSkillDir then
           ([], NotServed (js ''invalid path: path traversal not allowed''))
         else if \<not> fs_existsSync P resourcePath then
           ([Exists resourcePath], NotServed (js ''resource not found: '' @ relPathStr))
         else
           (case fs_statSync P resourcePath of
              Inl e \<Rightarrow> ([Exists resourcePath, Stat resourcePath], Caught e)
            | Inr st \<Rightarrow>
                if st \<noteq> StatFile then
                  ([Exists resourcePath, Stat resourcePath],
                   NotServed (js ''resource not found: '' @ relPathStr))
                else
                  (case fs_readFileSync P resourcePath of
                     Inl e \<Rightarrow>
                       ([Exists resourcePath, Stat resourcePath, ReadFile resourcePath],
                        Caught e)
                   | Inr data \<Rightarrow>
                       ([Exists resourcePath, Stat resourcePath, ReadFile resourcePath],
                        Data data))))"

definition readResource ::
  "platform \<Rightarrow> Skill \<Rightarrow> jsstring \<Rightarrow> access list \<times> readResult" where
  "readResource P skill relPathStr =
     (case zipPath skill of
        None \<Rightarrow> readDirResource P skill relPathStr
      | Some zp \<Rightarrow>
          if zp \<noteq> [] then readZipResource P zp skill relPathStr
          else readDirResource P skill relPathStr)"

text \<open>
  \<open>fetchResource\<close>: the accesses made, and either the error that reaches the caller
  (\<open>Inl\<close>, a rejected promise) or the resource returned.
\<close>

definition fetchResource ::
  "platform \<Rightarrow> SkillRegistry \<Rightarrow> jsstring \<Rightarrow> access list \<times> (error + SkillResource)" where
  "fetchResource P registry resourceUri =
     (case parseResourceUri resourceUri of
        Refused message \<Rightarrow> ([], Inr (makeErrorResource resourceUri message))
      | Thrown e \<Rightarrow> ([], Inl e)
      | Parsed slg relPathStr \<Rightarrow>
          if includesStr relPathStr (js ''..'') \<or> startsWith relPathStr (js ''/'') then
            ([], Inr (makeErrorResource resourceUri
                        (js ''invalid path: path traversal not allowed'')))
          else
            (case registryGet registry slg of
               Inl e \<Rightarrow>
                 ([], Inr (makeErrorResource resourceUri (js ''skill not found: '' @ slg)))
             | Inr skill \<Rightarrow>
                 (case readResource P skill relPathStr of
                    (acc, Caught e) \<Rightarrow>
                      (acc, Inr (makeErrorResource resourceUri
                                   (js ''failed to read resource: '' @ e)))
                  | (acc, NotServed message) \<Rightarrow>
                      (acc, Inr (makeErrorResource resourceUri message))
                  | (acc, Data data) \<Rightarrow>
                      (acc,
                       Inr \<lparr>uri = resourceUri,
                            resourceName = getResourceName skill relPathStr,
                            mimeType = detectMimeType P relPathStr,
                            content = (if isValidUtf8 data then utf8Decode data
                                       else encodeBase64 data),
                            encoding = (if isValidUtf8 data then js ''utf-8''
                                        else js ''base64'')\<rparr>))))"

section \<open>The identity invariant of the registry\<close>

text \<open>
  The key of every entry of the slug index is the slug of its skill, no slug and no name
  occurs twice there, and the name of every indexed skill is a key of the name index.
\<close>

definition registryInv :: "SkillRegistry \<Rightarrow> bool" where
  "registryInv R \<longleftrightarrow>
     distinct (map fst (skillsBySlug R)) \<and>
     (\<forall>(k, sk) \<in> set (skillsBySlug R). slug sk = k) \<and>
     distinct (map (\<lambda>(k, sk). name (metadata sk)) (skillsBySlug R)) \<and>
     (\<forall>(k, sk) \<in> set (skillsBySlug R). has (skillsByName R) (name (metadata sk)))"

text \<open>\<open>R'\<close> is \<open>R\<close> with one skill added at the end of both indexes, under a new slug and a
  new name; the journal is not compared.\<close>

definition registered :: "Skill \<Rightarrow> SkillRegistry \<Rightarrow> SkillRegistry \<Rightarrow> bool" where
  "registered sk R R' \<longleftrightarrow>
     \<not> has (skillsBySlug R) (slug sk) \<and> \<not> has (skillsByName R) (name (metadata sk)) \<and>
     skillsBySlug R' = skillsBySlug R @ [(slug sk, sk)] \<and>
     skillsByName R' = skillsByName R @ [(name (metadata sk), sk)]"

definition sameSkills :: "SkillRegistry \<Rightarrow> SkillRegistry \<Rightarrow> bool" where
  "sameSkills R R' \<longleftrightarrow>
     skillsBySlug R' = skillsBySlug R \<and> skillsByName R' = skillsByName R"

text \<open>Every skill of either index carries the slug that \<open>slugify\<close> derives from its name.\<close>

definition slugsDerived :: "platform \<Rightarrow> SkillRegistry \<Rightarrow> bool" where
  "slugsDerived P R \<longleftrightarrow>
     (\<forall>(k, sk) \<in> set (skillsBySlug R) \<union> set (skillsByName R).
        slug sk = slugify (String_toLowerCase P) (name (metadata sk)))"

section \<open>Order of the scan and places in an archive\<close>

text \<open>
  The subdirectories and the archives among the entries \<open>es\<close> of a directory, as the two
  loops of \<open>scanDirectory\<close> select them, in the order of \<open>es\<close>.
\<close>

definition subdirsOf :: "platform \<Rightarrow> jsstring \<Rightarrow> jsstring list \<Rightarrow> jsstring list" where
  "subdirsOf P dirPath es =
     filter (\<lambda>p. isDirectory P p = Inr True) (map (joinPath P dirPath) es)"

definition archivesOf :: "platform \<Rightarrow> jsstring \<Rightarrow> jsstring list \<Rightarrow> jsstring list" where
  "archivesOf P dirPath es =
     filter (\<lambda>p. existsSync P p \<and> isFile P p = Inr True \<and> isZipFile P p)
       (map (joinPath P dirPath) es)"

text \<open>The journal of one scanned subdirectory: it starts with the entry of that directory.\<close>

definition scanOf :: "visit list \<Rightarrow> jsstring \<Rightarrow> bool" where
  "scanOf seg p \<longleftrightarrow> seg \<noteq> [] \<and> hd seg = ScanDir p"

text \<open>
  The two phases of the scan of a directory in the words of the specification: first every
  subdirectory is scanned, one after the other, each scan starting from the registry the
  one before left; then every archive is tried, one after the other.
\<close>

fun scanEach ::
  "nat \<Rightarrow> platform \<Rightarrow> jsstring list \<Rightarrow> SkillRegistry \<Rightarrow> (error + SkillRegistry) option" where
  "scanEach n P [] R = Some (Inr R)"
| "scanEach n P (p # ps) R =
     (case scanDirectory n P p R of
        None \<Rightarrow> None
      | Some (Inl e) \<Rightarrow> Some (Inl e)
      | Some (Inr R1) \<Rightarrow> scanEach n P ps R1)"

fun tryEach :: "platform \<Rightarrow> jsstring list \<Rightarrow> SkillRegistry \<Rightarrow> SkillRegistry" where
  "tryEach P [] R = R"
| "tryEach P (z # zs) R = tryEach P zs (tryRegisterZipSkill P z R)"

text \<open>
  The file system below a directory is a finite tree: every chain of subdirectories that
  starts there ends. On such a directory the scan needs no more than a finite depth.
\<close>

inductive finiteBelow :: "platform \<Rightarrow> jsstring \<Rightarrow> bool" for P :: platform where
  finiteBelowI:
    "(\<And>es e. fs_readdirSync P d = Inr es \<Longrightarrow> e \<in> set es \<Longrightarrow>
        isDirectory P (joinPath P d e) = Inr True \<Longrightarrow> finiteBelow P (joinPath P d e)) \<Longrightarrow>
     finiteBelow P d"

text \<open>
  The first segments of the member names that hold a slash, as a set, and the words of the
  specification for the second place of \<open>SKILL.md\<close>: a directory common to all entries of the
  archive.
\<close>

definition firstSegments :: "(jsstring \<times> ZipObject) list \<Rightarrow> jsstring set" where
  "firstSegments files = (\<lambda>nm. hd (splitOn 47 nm)) ` {nm \<in> fst ` set files. 47 \<in> set nm}"

definition allUnder :: "jsstring \<Rightarrow> (jsstring \<times> ZipObject) list \<Rightarrow> bool" where
  "allUnder topDir files = list_all (\<lambda>nm. startsWith nm (topDir @ js ''/'')) (map fst files)"

section \<open>A small skills root\<close>

text \<open>
  A platform to run the program on: the root \<open>/skills\<close> holds the skill directory \<open>a\<close>
  (\<open>SKILL.md\<close> naming it \<open>Foo\<close>, a binary file, a file with a space in its name and a
  subdirectory with a \<open>SKILL.md\<close> of its own), the archive \<open>a.zip\<close> that also declares \<open>Foo\<close>,
  the archive \<open>t.zip\<close> with \<open>README.txt\<close> at its root next to \<open>top/SKILL.md\<close> and
  \<open>top/run.py\<close>, and a text file. Outside the root lies the archive \<open>two.zip\<close>, whose
  members are spread over two directories.
\<close>

definition nl :: jsstring where
  "nl = [10]"

definition fooHeader :: jsstring where
  "fooHeader = js ''name: Foo'' @ nl @ js ''description: does foo''"

definition barHeader :: jsstring where
  "barHeader = js ''name: Bar'' @ nl @ js ''description: does bar''"

definition nestedHeader :: jsstring where
  "nestedHeader = js ''name: Nested'' @ nl @ js ''description: inside a''"

definition skillDoc :: "jsstring \<Rightarrow> jsstring" where
  "skillDoc header = js ''---'' @ nl @ header @ nl @ js ''---'' @ nl @ js ''Do it.'' @ nl"

definition demoYaml :: "(jsstring \<times> jsval) list" where
  "demoYaml =
     [(fooHeader, JObj [(js ''name'', JStr (js ''Foo'')),
                        (js ''description'', JStr (js ''does foo''))]),
      (barHeader, JObj [(js ''name'', JStr (js ''Bar'')),
                        (js ''description'', JStr (js ''does bar''))]),
      (nestedHeader, JObj [(js ''name'', JStr (js ''Nested'')),
                           (js ''description'', JStr (js ''inside a''))]),
      (js ''name: Foo'', JObj [(js ''name'', JStr (js ''Foo''))]),
      (js ''- a'', JArr [JStr (js ''a'')]),
      (js ''42'', JNum (Finite 42 0))]"

definition demoStats :: "(jsstring \<times> stats) list" where
  "demoStats =
     [(js ''/skills'', StatDirectory), (js ''/skills/a'', StatDirectory),
      (js ''/skills/a/SKILL.md'', StatFile), (js ''/skills/a/data.bin'', StatFile),
      (js ''/skills/a/my file.txt'', StatFile), (js ''/skills/a/sub'', StatDirectory),
      (js ''/skills/a/sub/SKILL.md'', StatFile), (js ''/skills/a.zip'', StatFile),
      (js ''/skills/t.zip'', StatFile), (js ''/skills/b.txt'', StatFile)]"

definition demoDirs :: "(jsstring \<times> jsstring list) list" where
  "demoDirs =
     [(js ''/skills'', [js ''t.zip'', js ''b.txt'', js ''a.zip'', js ''a'']),
      (js ''/skills/a'', [js ''SKILL.md'', js ''data.bin'', js ''my file.txt'', js ''sub'']),
      (js ''/skills/a/sub'', [js ''SKILL.md''])]"

definition demoFiles :: "(jsstring \<times> buffer) list" where
  "demoFiles =
     [(js ''/skills/a/SKILL.md'', skillDoc fooHeader), (js ''/skills/a/data.bin'', [255]),
      (js ''/skills/a/my file.txt'', js ''hi''),
      (js ''/skills/a/sub/SKILL.md'', skillDoc nestedHeader),
      (js ''/skills/a.zip'', [80, 75, 3]), (js ''/skills/t.zip'', [80, 75, 4]),
      (js ''/skills/b.txt'', js ''b''), (js ''/elsewhere/two.zip'', [80, 75, 5])]"

definition tZipFiles :: "(jsstring \<times> ZipObject) list" where
  "tZipFiles =
     [(js ''README.txt'', \<lparr>dir = False, async = Inr (js ''read me'')\<rparr>),
      (js ''top/'', \<lparr>dir = True, async = Inr []\<rparr>),
      (js ''top/SKILL.md'', \<lparr>dir = False, async = Inr (skillDoc barHeader)\<rparr>),
      (js ''top/run.py'', \<lparr>dir = False, async = Inr (js ''print(1)'')\<rparr>)]"

definition twoZipFiles :: "(jsstring \<times> ZipObject) list" where
  "twoZipFiles =
     [(js ''x/SKILL.md'', \<lparr>dir = False, async = Inr (skillDoc barHeader)\<rparr>),
      (js ''y/notes.txt'', \<lparr>dir = False, async = Inr (js ''notes'')\<rparr>)]"

definition demoArchives :: "(buffer \<times> (jsstring \<times> ZipObject) list) list" where
  "demoArchives =
     [([80, 75, 3], [(js ''SKILL.md'', \<lparr>dir = False, async = Inr (skillDoc fooHeader)\<rparr>)]),
      ([80, 75, 4], tZipFiles), ([80, 75, 5], twoZipFiles)]"

definition lookupOr :: "('k \<times> 'v) list \<Rightarrow> jsstring \<Rightarrow> 'k \<Rightarrow> jsstring + 'v" where
  "lookupOr table message k = (case map_of table k of None \<Rightarrow> Inl message | Some v \<Rightarrow> Inr v)"

definition afterLast :: "jschar \<Rightarrow> jsstring \<Rightarrow> jsstring" where
  "afterLast c p = rev (takeWhile (\<lambda>d. d \<noteq> c) (rev p))"

definition demoPlatform :: platform where
  "demoPlatform =
     \<lparr>String_toLowerCase = asciiLower,
      String_of = (\<lambda>v. js ''[object Object]''),
      yaml_load = lookupOr demoYaml (js ''YAMLException: bad header''),
      path_join = (\<lambda>a b. a @ js ''/'' @ b),
      path_resolve = (\<lambda>p. p),
      path_basename = afterLast 47,
      path_dirname = (\<lambda>p. rev (drop 1 (dropWhile (\<lambda>d. d \<noteq> 47) (rev p)))),
      path_extname = (\<lambda>p. if 46 \<in> set (afterLast 47 p) then 46 # afterLast 46 p else []),
      fs_existsSync = (\<lambda>p. map_of demoStats p \<noteq> None),
      fs_statSync = lookupOr demoStats (js ''Error: ENOENT''),
      fs_readdirSync = lookupOr demoDirs (js ''Error: ENOTDIR''),
      fs_readFileSync = lookupOr demoFiles (js ''Error: ENOENT''),
      JSZip_loadAsync = lookupOr demoArchives (js ''Error: not a zip file'')\<rparr>"

definition emptyRegistry :: SkillRegistry where
  "emptyRegistry = \<lparr>root = js ''/skills'', skillsBySlug = [], skillsByName = [], journal = []\<rparr>"

definition fooSkill :: Skill where
  "fooSkill =
     \<lparr>slug = js ''foo'', directory = js ''/skills/a'',
      instructionsPath = js ''/skills/a/SKILL.md'',
      metadata = \<lparr>name = js ''Foo'', description = js ''does foo'', license = None,
                  allowedTools = [], extra = []\<rparr>,
      resources = [js ''/skills/a/data.bin'', js ''/skills/a/my file.txt'',
                   js ''/skills/a/sub/SKILL.md''],
      zipPath = None, zipRootPrefix = None\<rparr>"

definition barSkill :: Skill where
  "barSkill =
     \<lparr>slug = js ''bar'', directory = js ''/skills'', instructionsPath = js ''/skills/t.zip'',
      metadata = \<lparr>name = js ''Bar'', description = js ''does bar'', license = None,
                  allowedTools = [], extra = []\<rparr>,
      resources = [], zipPath = Some (js ''/skills/t.zip''),
      zipRootPrefix = Some (js ''top/'')\<rparr>"

definition fooRegistry :: SkillRegistry where
  "fooRegistry =
     \<lparr>root = js ''/skills'', skillsBySlug = [(js ''foo'', fooSkill)],
      skillsByName = [(js ''Foo'', fooSkill)],
      journal = [ScanDir (js ''/skills''), ScanDir (js ''/skills/a''),
                 DirSkill (js ''/skills/a'')]\<rparr>"

definition demoRegistry :: SkillRegistry where
  "demoRegistry =
     \<lparr>root = js ''/skills'',
      skillsBySlug = [(js ''foo'', fooSkill), (js ''bar'', barSkill)],
      skillsByName = [(js ''Foo'', fooSkill), (js ''Bar'', barSkill)],
      journal =
        [ScanDir (js ''/skills''), ScanDir (js ''/skills/a''), DirSkill (js ''/skills/a''),
         ZipSkill (js ''/skills/a.zip''), ZipSkill (js ''/skills/t.zip'')]\<rparr>"



section \<open>Properties of slugify\<close>

lemmas string_defs =
  js_def startsWith_def endsWith_def trim_def trimStart_def trimEnd_def isWhiteSpace_def
  asciiLower_def isUpper_def isLower_def isDigit_def isAlnum_def hyphen_def stripHyphens_def

lemma last_dropWhile_ne: "dropWhile P xs \<noteq> [] \<Longrightarrow> last (dropWhile P xs) = last xs"
  by (induction xs) (auto split: if_splits)

lemma stripHyphens_hd: "stripHyphens s \<noteq> [] \<Longrightarrow> hd (stripHyphens s) \<noteq> hyphen"
proof -
  assume ne: "stripHyphens s \<noteq> []"
  define t where "t = dropWhile (\<lambda>c. c = hyphen) s"
  define u where "u = dropWhile (\<lambda>c. c = hyphen) (rev t)"
  have su: "stripHyphens s = rev u" by (simp add: stripHyphens_def t_def u_def)
  with ne have une: "u \<noteq> []" by simp
  then have tne: "t \<noteq> []" by (auto simp: u_def)
  have "hd (rev u) = last u" using une by (simp add: hd_rev)
  also have "\<dots> = last (rev t)" using une unfolding u_def by (rule last_dropWhile_ne)
  also have "\<dots> = hd t" using tne by (simp add: last_rev)
  finally have "hd (stripHyphens s) = hd t" using su by simp
  moreover have "hd t \<noteq> hyphen" using tne hd_dropWhile[of "\<lambda>c. c = hyphen" s] by (simp add: t_def)
  ultimately show ?thesis by simp
qed

lemma stripHyphens_last: "stripHyphens s \<noteq> [] \<Longrightarrow> last (stripHyphens s) \<noteq> hyphen"
proof -
  assume ne: "stripHyphens s \<noteq> []"
  define u where "u = dropWhile (\<lambda>c. c = hyphen) (rev (dropWhile (\<lambda>c. c = hyphen) s))"
  have su: "stripHyphens s = rev u" by (simp add: stripHyphens_def u_def)
  with ne have une: "u \<noteq> []" by simp
  then have "hd u \<noteq> hyphen" using hd_dropWhile[of "\<lambda>c. c = hyphen"] unfolding u_def by blast
  then show ?thesis using su une by (simp add: last_rev)
qed

lemma strip_both_id:
  "s \<noteq> [] \<Longrightarrow> \<not> P (hd s) \<Longrightarrow> \<not> P (last s) \<Longrightarrow> rev (dropWhile P (rev (dropWhile P s))) = s"
proof -
  assume a: "s \<noteq> []" "\<not> P (hd s)" "\<not> P (last s)"
  then have 1: "dropWhile P s = s" by (cases s) auto
  from a have "\<not> P (hd (rev s))" by (simp add: hd_rev)
  with a have 2: "dropWhile P (rev s) = rev s" by (cases "rev s") auto
  show ?thesis by (simp add: 1 2)
qed

lemma rev_dropWhile_split: "xs = rev (dropWhile P (rev xs)) @ rev (takeWhile P (rev xs))"
proof -
  have "rev (takeWhile P (rev xs) @ dropWhile P (rev xs)) = xs"
    by (simp only: takeWhile_dropWhile_id rev_rev_ident)
  then show ?thesis by (simp only: rev_append)
qed

lemma stripHyphens_infix: "\<exists>a b. s = a @ stripHyphens s @ b"
proof -
  define t where "t = dropWhile (\<lambda>c. c = hyphen) s"
  have 1: "s = takeWhile (\<lambda>c. c = hyphen) s @ t" by (simp add: t_def)
  have 2: "t = stripHyphens s @ rev (takeWhile (\<lambda>c. c = hyphen) (rev t))"
    unfolding stripHyphens_def t_def by (rule rev_dropWhile_split)
  from 1 2 show ?thesis by metis
qed

lemma replaceNonAlnum_eq_collapse:
  "collapseRuns True cs = replaceNonAlnum (dropWhile (\<lambda>d. \<not> isAlnum d) cs)
   \<and> collapseRuns False cs = replaceNonAlnum cs"
  by (induction cs) auto

lemma replaceNonAlnum_chars:
  "c \<in> set (replaceNonAlnum s) \<Longrightarrow> c = hyphen \<or> (c \<in> set s \<and> isAlnum c)"
proof (induction s rule: replaceNonAlnum.induct)
  case 1 then show ?case by simp
next
  case (2 d ds)
  then show ?case by (auto split: if_splits dest: set_dropWhileD)
qed

lemma hyphen_not_alnum: "\<not> isAlnum hyphen"
  by (simp add: isAlnum_def isLower_def isUpper_def isDigit_def hyphen_def)

lemma replaceNonAlnum_head:
  "replaceNonAlnum (dropWhile (\<lambda>d. \<not> isAlnum d) cs) = [] \<or>
   isAlnum (hd (replaceNonAlnum (dropWhile (\<lambda>d. \<not> isAlnum d) cs)))"
proof -
  define e where "e = dropWhile (\<lambda>d. \<not> isAlnum d) cs"
  have "e = [] \<or> isAlnum (hd e)"
    using hd_dropWhile[of "\<lambda>d. \<not> isAlnum d" cs] unfolding e_def by blast
  then have "replaceNonAlnum e = [] \<or> isAlnum (hd (replaceNonAlnum e))"
    by (cases e) auto
  then show ?thesis by (simp only: e_def)
qed

lemma singleHyphens_Cons_alnum: "isAlnum c \<Longrightarrow> singleHyphens (c # r) = singleHyphens r"
  by (cases r) (auto simp: hyphen_not_alnum)

lemma singleHyphens_Cons_hyphen:
  "singleHyphens (hyphen # r) = ((r = [] \<or> isAlnum (hd r)) \<and> singleHyphens r)"
  by (cases r) (auto simp: hyphen_not_alnum)

lemma singleHyphens_replace: "singleHyphens (replaceNonAlnum s)"
proof (induction s rule: replaceNonAlnum.induct)
  case 1 then show ?case by simp
next
  case (2 c cs)
  show ?case
  proof (cases "isAlnum c")
    case True with 2 show ?thesis by (simp add: singleHyphens_Cons_alnum)
  next
    case False
    with 2 replaceNonAlnum_head[of cs] show ?thesis by (simp add: singleHyphens_Cons_hyphen)
  qed
qed

lemma singleHyphens_append_right: "singleHyphens (a @ b) \<Longrightarrow> singleHyphens b"
proof (induction a)
  case Nil then show ?case by simp
next
  case (Cons x a)
  then show ?case by (cases "a @ b") auto
qed

lemma singleHyphens_append_left: "singleHyphens (a @ b) \<Longrightarrow> singleHyphens a"
proof (induction a rule: singleHyphens.induct)
  case 1 then show ?case by simp
next
  case (2 c) then show ?case by (cases b) auto
next
  case (3 c d cs) then show ?case by auto
qed

lemma replaceNonAlnum_fix: "singleHyphens r \<Longrightarrow> replaceNonAlnum r = r"
proof (induction r rule: singleHyphens.induct)
  case 1 then show ?case by simp
next
  case (2 c) then show ?case by auto
next
  case (3 c d cs)
  then show ?case by (auto simp: hyphen_not_alnum)
qed

lemma whiteSpace_range: "isWhiteSpace c \<Longrightarrow> c < 45 \<or> 122 < c"
  unfolding isWhiteSpace_def by linarith

lemma slugChar_range: "isSlugChar c \<Longrightarrow> 45 \<le> c \<and> c \<le> 122 \<and> \<not> isUpper c"
  unfolding isSlugChar_def isLower_def isDigit_def isUpper_def hyphen_def by linarith

lemma slugChar_props:
  "isSlugChar c \<Longrightarrow> c < 128 \<and> \<not> isUpper c \<and> \<not> isWhiteSpace c"
  using whiteSpace_range[of c] slugChar_range[of c] by fastforce

lemma slugChar_alnum: "isSlugChar c \<Longrightarrow> isAlnum c \<or> c = hyphen"
  by (auto simp: isSlugChar_def isAlnum_def)

lemma singleHyphens_skill: "singleHyphens (js ''skill'')"
  by (simp add: js_def isAlnum_def isLower_def)

lemma skill_slugChars: "\<forall>c \<in> set (js ''skill''). isSlugChar c"
  by (simp add: js_def isSlugChar_def isLower_def)

lemma cleaned_chars:
  assumes "\<forall>c \<in> set x. \<not> isUpper c" and "c \<in> set (stripHyphens (replaceNonAlnum x))"
  shows "isSlugChar c"
proof -
  from assms(2) have "c \<in> set (replaceNonAlnum x)" using stripHyphens_infix[of "replaceNonAlnum x"]
    by (metis Un_iff set_append)
  then have "c = hyphen \<or> (c \<in> set x \<and> isAlnum c)" by (rule replaceNonAlnum_chars)
  with assms(1) show ?thesis by (auto simp: isSlugChar_def isAlnum_def)
qed

lemma cleaned_singleHyphens: "singleHyphens (stripHyphens (replaceNonAlnum x))"
proof -
  obtain a b where "replaceNonAlnum x = a @ stripHyphens (replaceNonAlnum x) @ b"
    using stripHyphens_infix by blast
  then have "singleHyphens (a @ stripHyphens (replaceNonAlnum x) @ b)"
    using singleHyphens_replace[of x] by simp
  then show ?thesis
    using singleHyphens_append_left singleHyphens_append_right by blast
qed

lemma slugify_shape:
  assumes "\<forall>s. \<forall>c \<in> set (lower s). \<not> isUpper c"
  shows "slugify lower v \<noteq> []" and "\<forall>c \<in> set (slugify lower v). isSlugChar c"
    and "hd (slugify lower v) \<noteq> hyphen" and "last (slugify lower v) \<noteq> hyphen"
    and "singleHyphens (slugify lower v)"
proof -
  define x where "x = lower (trim v)"
  define cl where "cl = stripHyphens (replaceNonAlnum x)"
  have sl: "slugify lower v = (if cl = [] then js ''skill'' else cl)"
    by (simp add: slugify_def cl_def x_def)
  have xu: "\<forall>c \<in> set x. \<not> isUpper c" using assms by (simp add: x_def)
  show "slugify lower v \<noteq> []" by (simp add: sl js_def)
  show "\<forall>c \<in> set (slugify lower v). isSlugChar c"
    using skill_slugChars cleaned_chars[OF xu] by (auto simp: sl cl_def)
  show "hd (slugify lower v) \<noteq> hyphen"
    using stripHyphens_hd[of "replaceNonAlnum x"] by (auto simp: sl cl_def js_def hyphen_def)
  show "last (slugify lower v) \<noteq> hyphen"
    using stripHyphens_last[of "replaceNonAlnum x"] by (auto simp: sl cl_def js_def hyphen_def)
  show "singleHyphens (slugify lower v)"
    using singleHyphens_skill cleaned_singleHyphens[of x] by (simp add: sl cl_def)
qed

lemma slugify_fix:
  assumes fixes_lower: "\<forall>s. (\<forall>c \<in> set s. c < 128 \<and> \<not> isUpper c) \<longrightarrow> lower s = s"
    and "t \<noteq> []" and chars: "\<forall>c \<in> set t. isSlugChar c"
    and "hd t \<noteq> hyphen" and "last t \<noteq> hyphen" and "singleHyphens t"
  shows "slugify lower t = t"
proof -
  have "hd t \<in> set t" "last t \<in> set t" using \<open>t \<noteq> []\<close> by simp_all
  then have "\<not> isWhiteSpace (hd t)" "\<not> isWhiteSpace (last t)"
    using chars slugChar_props by blast+
  then have 1: "trim t = t"
    unfolding trim_def trimEnd_def trimStart_def using \<open>t \<noteq> []\<close> by (rule strip_both_id[rotated])
  have 2: "lower t = t" using fixes_lower chars slugChar_props by blast
  have 3: "replaceNonAlnum t = t" using \<open>singleHyphens t\<close> by (rule replaceNonAlnum_fix)
  have 4: "stripHyphens t = t"
    unfolding stripHyphens_def using \<open>t \<noteq> []\<close> \<open>hd t \<noteq> hyphen\<close> \<open>last t \<noteq> hyphen\<close>
    by (rule strip_both_id)
  show ?thesis using \<open>t \<noteq> []\<close> by (simp add: slugify_def 1 2 3 4)
qed

lemma asciiLower_mapping: "lowerCaseMapping asciiLower"
  unfolding lowerCaseMapping_def asciiLower_def
  by (auto simp: isUpper_def map_idI)

text \<open>
  Claim C10. \<open>slugify\<close> is idempotent: applied to one of its own results it returns that
  result, and the fallback slug \<open>skill\<close> is returned unchanged.
\<close>

theorem slugify_idempotent:
  assumes "lowerCaseMapping lower"
  shows "slugify lower (slugify lower s) = slugify lower s \<and>
         slugify lower (js ''skill'') = js ''skill''"
proof -
  have nu: "\<forall>s. \<forall>c \<in> set (lower s). \<not> isUpper c"
    and fx: "\<forall>s. (\<forall>c \<in> set s. c < 128 \<and> \<not> isUpper c) \<longrightarrow> lower s = s"
    using assms by (simp_all add: lowerCaseMapping_def)
  have 1: "slugify lower (slugify lower s) = slugify lower s"
    using slugify_shape[OF nu, of s] by (intro slugify_fix[OF fx]) 
  have 2: "slugify lower (js ''skill'') = js ''skill''"
    using skill_slugChars singleHyphens_skill
    by (intro slugify_fix[OF fx]) (simp_all add: js_def hyphen_def)
  from 1 2 show ?thesis by simp
qed

theorem slugify_idempotent_witness:
  "lowerCaseMapping asciiLower \<and>
   slugify asciiLower (js ''My  Skill_2'') = js ''my-skill-2'' \<and>
   slugify asciiLower (slugify asciiLower (js ''My  Skill_2'')) =
     slugify asciiLower (js ''My  Skill_2'') \<and>
   slugify asciiLower (js ''skill'') = js ''skill''"
proof -
  have ev: "slugify asciiLower (js ''My  Skill_2'') = js ''my-skill-2''"
    by (simp add: slugify_def string_defs)
  note idem = slugify_idempotent[OF asciiLower_mapping, of "js ''My  Skill_2''"]
  show ?thesis
    using idem by (intro conjI asciiLower_mapping ev) (elim conjE, assumption)+
qed

section \<open>Properties of resources.ts\<close>

lemmas uri_defs =
  uriPrefix_def parseResourceUri_def hexVal_def hexOctet_def hexDigit_def leadingOnes_def
  isUnreserved_def percentEscape_def utf8Encode_def utf16Encode_def isHighSurrogate_def
  isLowSurrogate_def isContinuation_def

lemmas demo_defs =
  demoPlatform_def demoRegistry_def emptyRegistry_def fooSkill_def barSkill_def demoStats_def
  demoDirs_def demoFiles_def demoArchives_def demoYaml_def lookupOr_def afterLast_def nl_def
  fooHeader_def barHeader_def nestedHeader_def skillDoc_def

lemmas fetch_defs =
  fetchResource_def registryGet_def readResource_def readDirResource_def readZipResource_def
  makeErrorResource_def getResourceName_def detectMimeType_def getExtension_def mimeTypes_def
  isValidUtf8_def bufferToString_def encodeBase64_def base64Char_def utf8Lead_def

lemma splitOn_append:
  "sep \<notin> set seg \<Longrightarrow> splitOn sep (seg @ sep # rest) = seg # splitOn sep rest"
  by (induction seg) auto

lemma splitOn_nonempty: "splitOn sep s \<noteq> []"
  by (induction s) (auto split: list.splits)

lemma joinWith_Cons_hd: "joinWith sep ((c # p) # ps) = c # joinWith sep (p # ps)"
  by (cases ps) auto

lemma joinWith_splitOn: "joinWith [sep] (splitOn sep s) = s"
proof (induction s)
  case Nil
  then show ?case by simp
next
  case (Cons c s)
  obtain p ps where sp: "splitOn sep s = p # ps"
    using splitOn_nonempty[of sep s] by (cases "splitOn sep s") auto
  with Cons show ?case by (simp add: joinWith_Cons_hd)
qed

lemma includesStr_nonempty: "includesStr s p \<Longrightarrow> p \<noteq> [] \<Longrightarrow> s \<noteq> []"
  by (cases s) auto

lemma parseResourceUri_parts:
  assumes "seg \<noteq> []" and "47 \<notin> set seg" and "rest \<noteq> []"
  shows "parseResourceUri (uriPrefix @ seg @ js ''/'' @ rest) =
           (case decodeURIComponent seg of Inl e \<Rightarrow> Thrown e | Inr slg \<Rightarrow> Parsed slg rest)"
proof -
  have sl: "js ''/'' = [47]" by (simp add: js_def)
  have sp: "splitOn 47 (seg @ 47 # rest) = seg # splitOn 47 rest"
    using assms(2) by (rule splitOn_append)
  have jn: "joinWith [47] (splitOn 47 rest) = rest" by (rule joinWith_splitOn)
  have ne: "splitOn 47 rest \<noteq> []" by (rule splitOn_nonempty)
  show ?thesis
    unfolding parseResourceUri_def
    using assms(1,3) ne by (simp add: startsWith_def sl sp jn Let_def split: sum.splits)
qed

text \<open>
  Claim C1, as amended. For every platform and registry and every URI
  \<open>resource://skillz/<segment>/<rest>\<close> whose slug segment is not empty and is decoded by
  \<open>decodeURIComponent\<close> without an error, and whose path remainder \<open>rest\<close> contains \<open>..\<close> or
  starts with a slash, \<open>fetchResource\<close> returns the error resource
  \<open>invalid path: path traversal not allowed\<close> and has made no access to the file system or
  to an archive.
\<close>

theorem fetchResource_rejects_traversal:
  assumes "seg \<noteq> []" and "47 \<notin> set seg" and "decodeURIComponent seg = Inr slg"
    and "includesStr rest (js ''..'') \<or> startsWith rest (js ''/'')"
  shows "fetchResource P registry (uriPrefix @ seg @ js ''/'' @ rest) =
           ([], Inr (makeErrorResource (uriPrefix @ seg @ js ''/'' @ rest)
                       (js ''invalid path: path traversal not allowed'')))"
proof -
  have "rest \<noteq> []"
    using assms(4) includesStr_nonempty[of rest "js ''..''"] by (auto simp: startsWith_def js_def)
  then have "parseResourceUri (uriPrefix @ seg @ js ''/'' @ rest) = Parsed slg rest"
    using assms(1-3) by (simp add: parseResourceUri_parts)
  then show ?thesis
    using assms(4) by (simp add: fetchResource_def)
qed

text \<open>
  Claim C1, an instance: the request for \<open>../../etc/passwd\<close> of the skill \<open>foo\<close>.
\<close>

theorem fetchResource_rejects_traversal_witness:
  "js ''foo'' \<noteq> [] \<and> 47 \<notin> set (js ''foo'') \<and>
   decodeURIComponent (js ''foo'') = Inr (js ''foo'') \<and>
   includesStr (js ''../../etc/passwd'') (js ''..'') \<and>
   fetchResource demoPlatform demoRegistry (js ''resource://skillz/foo/../../etc/passwd'') =
     ([], Inr (makeErrorResource (js ''resource://skillz/foo/../../etc/passwd'')
                 (js ''invalid path: path traversal not allowed'')))"
proof -
  have a: "js ''foo'' \<noteq> []" "47 \<notin> set (js ''foo'')"
    "decodeURIComponent (js ''foo'') = Inr (js ''foo'')"
    "includesStr (js ''../../etc/passwd'') (js ''..'')"
    by (simp_all add: string_defs)
  have u: "uriPrefix @ js ''foo'' @ js ''/'' @ js ''../../etc/passwd'' =
           js ''resource://skillz/foo/../../etc/passwd''"
    by (simp add: uriPrefix_def js_def)
  from fetchResource_rejects_traversal[OF a(1) a(2) a(3) disjI1[OF a(4)], of demoPlatform demoRegistry]
  show ?thesis using a unfolding u by simp
qed

text \<open>
  Claim C1 as stated fails: the path remainder of \<open>resource://skillz//..\<close> contains \<open>..\<close>, but
  the slug segment is empty and the check of line 100 answers first, with
  \<open>invalid resource URI format\<close>.
\<close>

theorem empty_slug_refused_before_traversal_check:
  "includesStr (js ''..'') (js ''..'') \<and>
   fetchResource demoPlatform demoRegistry (js ''resource://skillz//..'') =
     ([], Inr (makeErrorResource (js ''resource://skillz//..'')
                 (js ''invalid resource URI format''))) \<and>
   makeErrorResource (js ''resource://skillz//..'') (js ''invalid resource URI format'') \<noteq>
   makeErrorResource (js ''resource://skillz//..'')
     (js ''invalid path: path traversal not allowed'')"
  by (simp add: fetchResource_def makeErrorResource_def uri_defs string_defs Let_def)

text \<open>
  Claim C3 fails on the code: \<open>decodeURIComponent(parts[0])\<close> at line 104 stands outside
  every \<open>try\<close>, so a slug segment that is no valid percent-encoding makes \<open>fetchResource\<close>
  throw \<open>URIError\<close> to its caller, whatever the platform and the registry.
\<close>

theorem fetchResource_throws_on_malformed_slug:
  "fetchResource P registry (js ''resource://skillz/%/a'') = ([], Inl URIError)"
  by (simp add: fetchResource_def uri_defs string_defs)

text \<open>
  Claim C5 fails on the code: \<open>buildResourceUri\<close> percent-encodes the path, and
  \<open>fetchResource\<close> decodes the slug but not the path remainder. For the path
  \<open>my file.txt\<close>, free of \<open>..\<close> and of a leading slash, the path that comes back is
  \<open>my%20file.txt\<close>.
\<close>

theorem build_then_parse_keeps_escapes:
  "buildResourceUri (skill\<lparr>slug := js ''foo''\<rparr>) (js ''my file.txt'') =
     Inr (js ''resource://skillz/foo/my%20file.txt'') \<and>
   parseResourceUri (js ''resource://skillz/foo/my%20file.txt'') =
     Parsed (js ''foo'') (js ''my%20file.txt'') \<and>
   \<not> includesStr (js ''my file.txt'') (js ''..'') \<and>
   \<not> startsWith (js ''my file.txt'') (js ''/'')"
  by (simp add: buildResourceUri_def uri_defs string_defs)

lemma isValidUtf8_always: "isValidUtf8 buffer"
  by (simp add: isValidUtf8_def bufferToString_def)

text \<open>
  Claim C4 fails on the code: \<open>isValidUtf8\<close> holds of every buffer, since
  \<open>buffer.toString("utf-8")\<close> replaces ill-formed input and never throws. The file
  \<open>data.bin\<close> of the skill \<open>foo\<close> holds the single octet 255, which is not UTF-8; it is
  served with the encoding \<open>utf-8\<close> and U+FFFD as its content, not as base64.
\<close>

theorem invalid_utf8_served_as_text:
  "fs_readFileSync demoPlatform (js ''/skills/a/data.bin'') = Inr [255] \<and>
   \<not> wellFormedUtf8 [255] \<and>
   snd (fetchResource demoPlatform demoRegistry (js ''resource://skillz/foo/data.bin'')) =
     Inr \<lparr>uri = js ''resource://skillz/foo/data.bin'', resourceName = js ''foo/data.bin'',
          mimeType = Some (js ''application/octet-stream''), content = [65533],
          encoding = js ''utf-8''\<rparr>"
  by (simp add: fetch_defs demo_defs uri_defs string_defs Let_def)

section \<open>Properties of the registry\<close>

lemmas parse_defs =
  parseSkillMd_def frontMatterMatch_def closeTail_def label_def orElse_def toStr_def
  parseAllowedTools_def knownKeys_def

lemmas registry_defs =
  load_def registerDirSkill_def tryRegisterZipSkill_def locateSkillMd_def fileNames_def
  topLevelDirs_def collectResources_def getAllFiles_def existsSync_def isDirectory_def
  isFile_def joinPath_def readFileSync_def isZipFile_def getExtension_def SKILL_MARKDOWN_def
  visited_def has_def slugify_def

lemma has_iff: "has m k \<longleftrightarrow> k \<in> fst ` set m"
  by (simp add: has_def map_of_eq_None_iff)

lemma mapSet_new: "\<not> has m k \<Longrightarrow> mapSet m k v = m @ [(k, v)]"
  by (induction m) (auto simp: has_iff)

lemma visited_fields [simp]:
  "skillsBySlug (visited v R) = skillsBySlug R" "skillsByName (visited v R) = skillsByName R"
  "journal (visited v R) = journal R @ [v]" "root (visited v R) = root R"
  by (simp_all add: visited_def)

lemma sameSkills_visited: "sameSkills R (visited v R)"
  by (simp add: sameSkills_def)

lemma registerDirSkill_cases:
  assumes "registerDirSkill n P d p R = Some R'"
  shows "sameSkills R R' \<or> (\<exists>sk. registered sk R R')"
  using assms
  by (auto simp: registerDirSkill_def Let_def sameSkills_def registered_def mapSet_new
      split: sum.splits option.splits if_splits)

lemma tryRegisterZipSkill_cases:
  "sameSkills R (tryRegisterZipSkill P zp R) \<or> (\<exists>sk. registered sk R (tryRegisterZipSkill P zp R))"
  by (auto simp: tryRegisterZipSkill_def Let_def sameSkills_def registered_def mapSet_new
      split: sum.splits option.splits if_splits prod.splits)

lemma registryInv_same: "sameSkills R R' \<Longrightarrow> registryInv R \<Longrightarrow> registryInv R'"
  by (simp add: registryInv_def sameSkills_def)

lemma registryInv_registered:
  assumes "registered sk R R'" and "registryInv R"
  shows "registryInv R'"
proof -
  from assms(1) have ns: "slug sk \<notin> fst ` set (skillsBySlug R)"
    and nn: "name (metadata sk) \<notin> fst ` set (skillsByName R)"
    and bs: "skillsBySlug R' = skillsBySlug R @ [(slug sk, sk)]"
    and bn: "skillsByName R' = skillsByName R @ [(name (metadata sk), sk)]"
    by (simp_all add: registered_def has_iff)
  from assms(2) have i1: "distinct (map fst (skillsBySlug R))"
    and i2: "\<forall>(k, s) \<in> set (skillsBySlug R). slug s = k"
    and i3: "distinct (map (\<lambda>(k, s). name (metadata s)) (skillsBySlug R))"
    and i4: "\<forall>(k, s) \<in> set (skillsBySlug R). name (metadata s) \<in> fst ` set (skillsByName R)"
    by (simp_all add: registryInv_def has_iff)
  have fresh: "name (metadata sk) \<notin> (\<lambda>(k, s). name (metadata s)) ` set (skillsBySlug R)"
    using i4 nn by auto
  show ?thesis
    unfolding registryInv_def has_iff bs bn
    using ns i1 i2 i3 i4 fresh by auto
qed

lemma registryInv_registerDirSkill:
  "registerDirSkill n P d p R = Some R' \<Longrightarrow> registryInv R \<Longrightarrow> registryInv R'"
  using registerDirSkill_cases registryInv_same registryInv_registered by blast

lemma registryInv_tryRegisterZipSkill:
  "registryInv R \<Longrightarrow> registryInv (tryRegisterZipSkill P zp R)"
  using tryRegisterZipSkill_cases registryInv_same registryInv_registered by blast

lemma registryInv_registerZips:
  "registerZips P d es R = Inr R' \<Longrightarrow> registryInv R \<Longrightarrow> registryInv R'"
proof (induction es arbitrary: R)
  case Nil
  then show ?case by simp
next
  case (Cons e es)
  then show ?case
    by (auto simp: Let_def registryInv_tryRegisterZipSkill split: if_splits sum.splits bool.splits)
qed

lemma registryInv_scan:
  "scanDirectory n P d R = Some (Inr R') \<Longrightarrow> registryInv R \<Longrightarrow> registryInv R'"
  "scanSubdirs n P d es R = Some (Inr R') \<Longrightarrow> registryInv R \<Longrightarrow> registryInv R'"
proof (induction n P d R and n P d es R arbitrary: R' and R' rule: scanDirectory_scanSubdirs.induct)
  case (1 P dirPath R0)
  then show ?case by simp
next
  case (2 n P dirPath R0)
  have v: "registryInv R0 \<Longrightarrow> registryInv (visited (ScanDir dirPath) R0)"
    using registryInv_same sameSkills_visited by blast
  show ?case
    using 2 v
    by (auto simp: Let_def split: if_splits sum.splits bool.splits option.splits
        dest: registryInv_registerDirSkill registryInv_registerZips)
next
  case (3 n P dirPath R)
  then show ?case by simp
next
  case (4 n P dirPath entry es R)
  then show ?case
    by (auto simp: Let_def split: if_splits sum.splits bool.splits option.splits)
qed

lemma demo_fields:
  "String_toLowerCase demoPlatform = asciiLower"
  "yaml_load demoPlatform = lookupOr demoYaml (js ''YAMLException: bad header'')"
  "path_join demoPlatform a b = a @ js ''/'' @ b"
  "path_resolve demoPlatform p = p"
  "path_dirname demoPlatform p = rev (drop 1 (dropWhile (\<lambda>d. d \<noteq> 47) (rev p)))"
  "path_extname demoPlatform p =
     (if 46 \<in> set (afterLast 47 p) then 46 # afterLast 46 p else [])"
  "fs_existsSync demoPlatform p = (map_of demoStats p \<noteq> None)"
  "fs_statSync demoPlatform = lookupOr demoStats (js ''Error: ENOENT'')"
  "fs_readdirSync demoPlatform = lookupOr demoDirs (js ''Error: ENOTDIR'')"
  "fs_readFileSync demoPlatform = lookupOr demoFiles (js ''Error: ENOENT'')"
  "JSZip_loadAsync demoPlatform = lookupOr demoArchives (js ''Error: not a zip file'')"
  by (simp_all add: demoPlatform_def)

lemmas demo_tables =
  demoStats_def demoDirs_def demoFiles_def demoArchives_def tZipFiles_def twoZipFiles_def
  demoYaml_def lookupOr_def afterLast_def nl_def fooHeader_def barHeader_def nestedHeader_def
  skillDoc_def

lemma demo_foo_doc:
  "parseSkillMd demoPlatform (utf8Decode (skillDoc fooHeader)) (Some lbl) =
     Inr \<lparr>meta = \<lparr>name = js ''Foo'', description = js ''does foo'', license = None,
                  allowedTools = [], extra = []\<rparr>, body = js ''Do it.'' @ [10]\<rparr>"
  by (simp add: parse_defs demo_fields demo_tables string_defs Let_def)

lemma demo_bar_doc:
  "parseSkillMd demoPlatform (utf8Decode (skillDoc barHeader)) (Some lbl) =
     Inr \<lparr>meta = \<lparr>name = js ''Bar'', description = js ''does bar'', license = None,
                  allowedTools = [], extra = []\<rparr>, body = js ''Do it.'' @ [10]\<rparr>"
  by (simp add: parse_defs demo_fields demo_tables string_defs Let_def)




lemma demo_sort:
  "sort [js ''t.zip'', js ''b.txt'', js ''a.zip'', js ''a''] =
     [js ''a'', js ''a.zip'', js ''b.txt'', js ''t.zip'']"
  by (simp add: js_def)

lemma demo_resources:
  "collectResources (Suc (Suc 0)) demoPlatform (js ''/skills/a'') =
     Some (Inr [js ''/skills/a/data.bin'', js ''/skills/a/my file.txt'',
                js ''/skills/a/sub/SKILL.md''])"
  by (simp add: collectResources_def getAllFiles_def joinPath_def isDirectory_def
      isFile_def SKILL_MARKDOWN_def demo_fields demo_tables js_def Let_def)

lemma demo_slugs:
  "slugify asciiLower (js ''Foo'') = js ''foo''" "slugify asciiLower (js ''Bar'') = js ''bar''"
  by (simp_all add: slugify_def string_defs)

lemma demo_registerDirSkill:
  "registerDirSkill (Suc (Suc 0)) demoPlatform (js ''/skills/a'') (js ''/skills/a/SKILL.md'')
     \<lparr>root = js ''/skills'', skillsBySlug = [], skillsByName = [], journal = J\<rparr> =
   Some \<lparr>root = js ''/skills'', skillsBySlug = [(js ''foo'', fooSkill)],
         skillsByName = [(js ''Foo'', fooSkill)], journal = J @ [DirSkill (js ''/skills/a'')]\<rparr>"
proof -
  have rd: "readFileSync demoPlatform (js ''/skills/a/SKILL.md'') = Inr (utf8Decode (skillDoc fooHeader))"
    by (simp add: readFileSync_def demo_fields demoFiles_def lookupOr_def js_def)
  show ?thesis
    by (simp add: registerDirSkill_def rd demo_foo_doc demo_resources demo_slugs demo_fields
        visited_def has_def fooSkill_def Let_def)
qed

lemma js_eq_iff: "js a = js b \<longleftrightarrow> a = b"
  by (simp add: js_def inj_map_eq_map inj_on_def)

lemma js_Nil_iff: "js a = [] \<longleftrightarrow> a = []"
  by (simp add: js_def)

lemma demo_locate:
  "locateSkillMd [(js ''SKILL.md'', \<lparr>dir = False, async = Inr (skillDoc fooHeader)\<rparr>)] =
     Some (js ''SKILL.md'', [])"
  "locateSkillMd tZipFiles = Some (js ''top/SKILL.md'', js ''top/'')"
  by (simp_all add: locateSkillMd_def fileNames_def topLevelDirs_def SKILL_MARKDOWN_def
      tZipFiles_def js_def)

lemma demo_zip_rejected:
  "tryRegisterZipSkill demoPlatform (js ''/skills/a.zip'')
     \<lparr>root = r, skillsBySlug = [(js ''foo'', fooSkill)], skillsByName = [(js ''Foo'', fooSkill)],
      journal = J\<rparr> =
   \<lparr>root = r, skillsBySlug = [(js ''foo'', fooSkill)], skillsByName = [(js ''Foo'', fooSkill)],
    journal = J @ [ZipSkill (js ''/skills/a.zip'')]\<rparr>"
proof -
  have rd: "fs_readFileSync demoPlatform (js ''/skills/a.zip'') = Inr [80, 75, 3]"
    by (simp add: demo_fields demoFiles_def lookupOr_def js_def)
  have ld: "JSZip_loadAsync demoPlatform [80, 75, 3] =
      Inr [(js ''SKILL.md'', \<lparr>dir = False, async = Inr (skillDoc fooHeader)\<rparr>)]"
    by (simp add: demo_fields demoArchives_def lookupOr_def)
  show ?thesis
    by (simp add: tryRegisterZipSkill_def rd ld demo_locate demo_foo_doc demo_slugs
        demo_fields(1,4) visited_def has_def Let_def js_eq_iff)
qed

lemma demo_zip_registered:
  "tryRegisterZipSkill demoPlatform (js ''/skills/t.zip'')
     \<lparr>root = r, skillsBySlug = [(js ''foo'', fooSkill)], skillsByName = [(js ''Foo'', fooSkill)],
      journal = J\<rparr> =
   \<lparr>root = r, skillsBySlug = [(js ''foo'', fooSkill), (js ''bar'', barSkill)],
    skillsByName = [(js ''Foo'', fooSkill), (js ''Bar'', barSkill)],
    journal = J @ [ZipSkill (js ''/skills/t.zip'')]\<rparr>"
proof -
  have rd: "fs_readFileSync demoPlatform (js ''/skills/t.zip'') = Inr [80, 75, 4]"
    by (simp add: demo_fields demoFiles_def lookupOr_def js_def)
  have ld: "JSZip_loadAsync demoPlatform [80, 75, 4] = Inr tZipFiles"
    by (simp add: demo_fields demoArchives_def lookupOr_def)
  have mo: "map_of tZipFiles (js ''top/SKILL.md'') =
      Some \<lparr>dir = False, async = Inr (skillDoc barHeader)\<rparr>"
    by (simp add: tZipFiles_def js_def)
  have dn: "path_dirname demoPlatform (js ''/skills/t.zip'') = js ''/skills''"
    by (simp add: demo_fields js_def)
  have ne: "js ''bar'' \<noteq> js ''foo''" "js ''Bar'' \<noteq> js ''Foo''" by (simp_all add: js_def)
  show ?thesis
    using ne
    by (simp add: tryRegisterZipSkill_def rd ld mo dn demo_locate demo_bar_doc demo_slugs
        demo_fields(1,4) visited_def has_def Let_def barSkill_def js_eq_iff)
qed

lemma demo_registerZips:
  "registerZips demoPlatform (js ''/skills'') [js ''a'', js ''a.zip'', js ''b.txt'', js ''t.zip'']
     \<lparr>root = r, skillsBySlug = [(js ''foo'', fooSkill)], skillsByName = [(js ''Foo'', fooSkill)],
      journal = J\<rparr> =
   Inr \<lparr>root = r, skillsBySlug = [(js ''foo'', fooSkill), (js ''bar'', barSkill)],
    skillsByName = [(js ''Foo'', fooSkill), (js ''Bar'', barSkill)],
    journal = J @ [ZipSkill (js ''/skills/a.zip''), ZipSkill (js ''/skills/t.zip'')]\<rparr>"
proof -
  have p: "joinPath demoPlatform (js ''/skills'') (js ''a'') = js ''/skills/a''"
    "joinPath demoPlatform (js ''/skills'') (js ''a.zip'') = js ''/skills/a.zip''"
    "joinPath demoPlatform (js ''/skills'') (js ''b.txt'') = js ''/skills/b.txt''"
    "joinPath demoPlatform (js ''/skills'') (js ''t.zip'') = js ''/skills/t.zip''"
    by (simp_all add: joinPath_def demo_fields js_def)
  have e: "existsSync demoPlatform (js ''/skills/a'')" "existsSync demoPlatform (js ''/skills/a.zip'')"
    "existsSync demoPlatform (js ''/skills/b.txt'')" "existsSync demoPlatform (js ''/skills/t.zip'')"
    by (simp_all add: existsSync_def demo_fields demoStats_def js_def)
  have f: "isFile demoPlatform (js ''/skills/a'') = Inr False"
    "isFile demoPlatform (js ''/skills/a.zip'') = Inr True"
    "isFile demoPlatform (js ''/skills/b.txt'') = Inr True"
    "isFile demoPlatform (js ''/skills/t.zip'') = Inr True"
    by (simp_all add: isFile_def demo_fields demoStats_def lookupOr_def js_def)
  have z: "isZipFile demoPlatform (js ''/skills/a.zip'')" "\<not> isZipFile demoPlatform (js ''/skills/b.txt'')"
    "isZipFile demoPlatform (js ''/skills/t.zip'')"
    by (simp_all add: isZipFile_def getExtension_def demo_fields afterLast_def string_defs)
  show ?thesis
    by (simp add: p e f z demo_zip_rejected demo_zip_registered)
qed

lemma demo_paths:
  "joinPath demoPlatform (js ''/skills'') (js ''a'') = js ''/skills/a''"
  "joinPath demoPlatform (js ''/skills'') (js ''a.zip'') = js ''/skills/a.zip''"
  "joinPath demoPlatform (js ''/skills'') (js ''b.txt'') = js ''/skills/b.txt''"
  "joinPath demoPlatform (js ''/skills'') (js ''t.zip'') = js ''/skills/t.zip''"
  "joinPath demoPlatform (js ''/skills'') SKILL_MARKDOWN = js ''/skills/SKILL.md''"
  "joinPath demoPlatform (js ''/skills/a'') SKILL_MARKDOWN = js ''/skills/a/SKILL.md''"
  by (simp_all add: joinPath_def demo_fields SKILL_MARKDOWN_def js_def)

lemma demo_kinds:
  "isDirectory demoPlatform (js ''/skills'') = Inr True"
  "isDirectory demoPlatform (js ''/skills/a'') = Inr True"
  "isDirectory demoPlatform (js ''/skills/a.zip'') = Inr False"
  "isDirectory demoPlatform (js ''/skills/b.txt'') = Inr False"
  "isDirectory demoPlatform (js ''/skills/t.zip'') = Inr False"
  "isFile demoPlatform (js ''/skills/a/SKILL.md'') = Inr True"
  "existsSync demoPlatform (js ''/skills'')"
  "existsSync demoPlatform (js ''/skills/a/SKILL.md'')"
  "\<not> existsSync demoPlatform (js ''/skills/SKILL.md'')"
  by (simp_all add: isDirectory_def isFile_def existsSync_def demo_fields demoStats_def
      lookupOr_def js_def)

lemma demo_readdir:
  "fs_readdirSync demoPlatform (js ''/skills'') =
     Inr [js ''t.zip'', js ''b.txt'', js ''a.zip'', js ''a'']"
  by (simp add: demo_fields demoDirs_def lookupOr_def js_def)

lemma demo_scan_a:
  "scanDirectory (Suc (Suc (Suc 0))) demoPlatform (js ''/skills/a'')
     \<lparr>root = js ''/skills'', skillsBySlug = [], skillsByName = [], journal = J\<rparr> =
   Some (Inr \<lparr>root = js ''/skills'', skillsBySlug = [(js ''foo'', fooSkill)],
              skillsByName = [(js ''Foo'', fooSkill)],
              journal = J @ [ScanDir (js ''/skills/a''), DirSkill (js ''/skills/a'')]\<rparr>)"
  by (simp add: demo_paths demo_kinds visited_def demo_registerDirSkill Let_def)

lemma demo_scan_root:
  "scanDirectory (Suc (Suc (Suc (Suc 0)))) demoPlatform (js ''/skills'')
     \<lparr>root = js ''/skills'', skillsBySlug = [], skillsByName = [], journal = []\<rparr> =
   Some (Inr demoRegistry)"
proof -
  have s2: "sort [js ''a'', js ''a.zip'', js ''b.txt'', js ''t.zip''] =
      [js ''a'', js ''a.zip'', js ''b.txt'', js ''t.zip'']"
    by (simp add: js_def)
  show ?thesis
    apply (subst scanDirectory.simps(2))
    apply (simp add: demo_paths demo_kinds demo_readdir demo_sort s2 visited_def demo_scan_a
        demo_registerZips demoRegistry_def Let_def
        del: scanDirectory.simps registerZips.simps sort_key_simps)
    done
qed

lemma demo_load:
  "load (Suc (Suc (Suc (Suc 0)))) demoPlatform emptyRegistry = Some (Inr demoRegistry)"
  by (simp add: load_def emptyRegistry_def demo_kinds demo_fields(4) demo_scan_root
      del: scanDirectory.simps)

lemma registryInv_distinct:
  assumes "registryInv R"
  shows "distinct (map slug (skills R))" and "distinct (map (\<lambda>sk. name (metadata sk)) (skills R))"
proof -
  from assms have i1: "distinct (map fst (skillsBySlug R))"
    and i2: "\<forall>(k, sk) \<in> set (skillsBySlug R). slug sk = k"
    and i3: "distinct (map (\<lambda>(k, sk). name (metadata sk)) (skillsBySlug R))"
    by (simp_all add: registryInv_def)
  have "map slug (skills R) = map fst (skillsBySlug R)"
    using i2 by (auto simp: skills_def)
  with i1 show "distinct (map slug (skills R))" by simp
  have "map (\<lambda>sk. name (metadata sk)) (skills R) =
        map (\<lambda>(k, sk). name (metadata sk)) (skillsBySlug R)"
    by (auto simp: skills_def)
  with i3 show "distinct (map (\<lambda>sk. name (metadata sk)) (skills R))" by simp
qed

lemma registryInv_cleared:
  "registryInv (R\<lparr>skillsBySlug := [], skillsByName := [], journal := []\<rparr>)"
  by (simp add: registryInv_def)

lemma registryInv_load: "load n P R = Some (Inr R') \<Longrightarrow> registryInv R'"
  using registryInv_scan(1)[OF _ registryInv_cleared]
  by (auto simp: load_def split: if_splits sum.splits bool.splits)

lemma registerDirSkill_duplicate:
  assumes "readFileSync P p = Inr src" and "parseSkillMd P src (Some p) = Inr parsed"
    and "has (skillsBySlug R) (slugify (String_toLowerCase P) (name (meta parsed))) \<or>
         has (skillsByName R) (name (meta parsed))"
  shows "registerDirSkill n P d p R = Some (visited (DirSkill d) R)"
  using assms by (auto simp: registerDirSkill_def Let_def)

lemma tryRegisterZipSkill_duplicate:
  assumes "fs_readFileSync P zp = Inr zipData" and "JSZip_loadAsync P zipData = Inr files"
    and "locateSkillMd files = Some (mdPath, pre)" and "map_of files mdPath = Some f"
    and "async f = Inr bytes" and "parseSkillMd P (utf8Decode bytes) (Some mdPath) = Inr parsed"
    and "has (skillsBySlug R) (slugify (String_toLowerCase P) (name (meta parsed))) \<or>
         has (skillsByName R) (name (meta parsed))"
  shows "tryRegisterZipSkill P zp R = visited (ZipSkill zp) R"
  using assms by (auto simp: tryRegisterZipSkill_def Let_def)

text \<open>
  Claim C2. After every successful \<open>load\<close> the registered skills have pairwise distinct
  slugs and pairwise distinct names. A directory candidate and an archive candidate whose
  slug or whose name is already in the registry are rejected: registration returns
  normally, with both indexes as they were (only the journal of the scan grows).
\<close>

theorem load_unique_identities:
  "(load n P R0 = Some (Inr R') \<longrightarrow>
      distinct (map slug (skills R')) \<and>
      distinct (map (\<lambda>sk. name (metadata sk)) (skills R'))) \<and>
   (readFileSync P p = Inr src \<and> parseSkillMd P src (Some p) = Inr parsed \<and>
    (has (skillsBySlug R) (slugify (String_toLowerCase P) (name (meta parsed))) \<or>
     has (skillsByName R) (name (meta parsed))) \<longrightarrow>
      registerDirSkill n P d p R = Some (visited (DirSkill d) R)) \<and>
   (fs_readFileSync P zp = Inr zipData \<and> JSZip_loadAsync P zipData = Inr files \<and>
    locateSkillMd files = Some (mdPath, pre) \<and> map_of files mdPath = Some f \<and>
    async f = Inr bytes \<and> parseSkillMd P (utf8Decode bytes) (Some mdPath) = Inr parsed' \<and>
    (has (skillsBySlug R) (slugify (String_toLowerCase P) (name (meta parsed'))) \<or>
     has (skillsByName R) (name (meta parsed'))) \<longrightarrow>
      tryRegisterZipSkill P zp R = visited (ZipSkill zp) R)"
proof (intro conjI impI)
  assume "load n P R0 = Some (Inr R')"
  then have "registryInv R'" by (rule registryInv_load)
  then show "distinct (map slug (skills R'))"
    and "distinct (map (\<lambda>sk. name (metadata sk)) (skills R'))"
    by (rule registryInv_distinct)+
next
  assume "readFileSync P p = Inr src \<and> parseSkillMd P src (Some p) = Inr parsed \<and>
    (has (skillsBySlug R) (slugify (String_toLowerCase P) (name (meta parsed))) \<or>
     has (skillsByName R) (name (meta parsed)))"
  then show "registerDirSkill n P d p R = Some (visited (DirSkill d) R)"
    using registerDirSkill_duplicate by blast
next
  assume "fs_readFileSync P zp = Inr zipData \<and> JSZip_loadAsync P zipData = Inr files \<and>
    locateSkillMd files = Some (mdPath, pre) \<and> map_of files mdPath = Some f \<and>
    async f = Inr bytes \<and> parseSkillMd P (utf8Decode bytes) (Some mdPath) = Inr parsed' \<and>
    (has (skillsBySlug R) (slugify (String_toLowerCase P) (name (meta parsed'))) \<or>
     has (skillsByName R) (name (meta parsed')))"
  then show "tryRegisterZipSkill P zp R = visited (ZipSkill zp) R"
    using tryRegisterZipSkill_duplicate by blast
qed

lemma demo_read_a:
  "readFileSync demoPlatform (js ''/skills/a/SKILL.md'') = Inr (utf8Decode (skillDoc fooHeader))"
  by (simp add: readFileSync_def demo_fields demoFiles_def lookupOr_def js_def)

lemma demo_read_azip: "fs_readFileSync demoPlatform (js ''/skills/a.zip'') = Inr [80, 75, 3]"
  by (simp add: demo_fields demoFiles_def lookupOr_def js_def)

lemma demo_load_azip:
  "JSZip_loadAsync demoPlatform [80, 75, 3] =
     Inr [(js ''SKILL.md'', \<lparr>dir = False, async = Inr (skillDoc fooHeader)\<rparr>)]"
  by (simp add: demo_fields demoArchives_def lookupOr_def)

lemma demo_has_foo:
  "has (skillsBySlug demoRegistry) (js ''foo'')" "has (skillsByName demoRegistry) (js ''Foo'')"
  by (simp_all add: has_def demoRegistry_def)

text \<open>
  Claim C2, an instance: the load of the small skills root registers \<open>foo\<close> and \<open>bar\<close>;
  the directory \<open>a\<close> and the archive \<open>a.zip\<close>, which both declare \<open>Foo\<close>, are rejected by a
  registry that holds \<open>foo\<close>.
\<close>

theorem load_unique_identities_witness:
  "load (Suc (Suc (Suc (Suc 0)))) demoPlatform emptyRegistry = Some (Inr demoRegistry) \<and>
   distinct (map slug (skills demoRegistry)) \<and>
   distinct (map (\<lambda>sk. name (metadata sk)) (skills demoRegistry)) \<and>
   map slug (skills demoRegistry) = [js ''foo'', js ''bar''] \<and>
   has (skillsBySlug demoRegistry) (js ''foo'') \<and>
   slugify (String_toLowerCase demoPlatform) (js ''Foo'') = js ''foo'' \<and>
   registerDirSkill 0 demoPlatform (js ''/skills/a'') (js ''/skills/a/SKILL.md'') demoRegistry =
     Some (visited (DirSkill (js ''/skills/a'')) demoRegistry) \<and>
   tryRegisterZipSkill demoPlatform (js ''/skills/a.zip'') demoRegistry =
     visited (ZipSkill (js ''/skills/a.zip'')) demoRegistry"
proof -
  let ?foo = "\<lparr>meta = \<lparr>name = js ''Foo'', description = js ''does foo'', license = None,
                  allowedTools = [], extra = []\<rparr>, body = js ''Do it.'' @ [10]\<rparr>"
  have sl: "slugify (String_toLowerCase demoPlatform) (js ''Foo'') = js ''foo''"
    by (simp add: demo_fields(1) demo_slugs)
  have dup: "has (skillsBySlug demoRegistry)
               (slugify (String_toLowerCase demoPlatform) (name (meta ?foo))) \<or>
             has (skillsByName demoRegistry) (name (meta ?foo))"
    by (simp add: sl demo_has_foo)
  note th = load_unique_identities[where n = "Suc (Suc (Suc (Suc 0)))" and P = demoPlatform
      and ?R0.0 = emptyRegistry and R' = demoRegistry]
  have a: "distinct (map slug (skills demoRegistry)) \<and>
           distinct (map (\<lambda>sk. name (metadata sk)) (skills demoRegistry))"
    using th demo_load by blast
  have b: "registerDirSkill 0 demoPlatform (js ''/skills/a'') (js ''/skills/a/SKILL.md'')
             demoRegistry = Some (visited (DirSkill (js ''/skills/a'')) demoRegistry)"
    using load_unique_identities[where n = 0 and P = demoPlatform and R = demoRegistry
        and p = "js ''/skills/a/SKILL.md''" and src = "utf8Decode (skillDoc fooHeader)"
        and parsed = ?foo and d = "js ''/skills/a''"]
      demo_read_a demo_foo_doc dup by blast
  have c: "tryRegisterZipSkill demoPlatform (js ''/skills/a.zip'') demoRegistry =
             visited (ZipSkill (js ''/skills/a.zip'')) demoRegistry"
    using load_unique_identities[where P = demoPlatform and R = demoRegistry
        and zp = "js ''/skills/a.zip''" and zipData = "[80, 75, 3]"
        and files = "[(js ''SKILL.md'', \<lparr>dir = False, async = Inr (skillDoc fooHeader)\<rparr>)]"
        and mdPath = "js ''SKILL.md''" and pre = "[]"
        and f = "\<lparr>dir = False, async = Inr (skillDoc fooHeader)\<rparr>"
        and bytes = "skillDoc fooHeader" and parsed' = ?foo]
      demo_read_azip demo_load_azip demo_locate(1) demo_foo_doc dup
    by (auto simp: js_eq_iff)
  have d: "map slug (skills demoRegistry) = [js ''foo'', js ''bar'']"
    by (simp add: skills_def demoRegistry_def fooSkill_def barSkill_def)
  show ?thesis
    using demo_load a b c d sl demo_has_foo(1) by (intro conjI) simp_all
qed

section \<open>Properties of archive registration\<close>

lemma remdups_single: "remdups xs = [t] \<Longrightarrow> set xs = {t}"
  by (metis empty_set list.simps(15) set_remdups)

lemma firstSegments_list:
  "firstSegments files =
     set (map (\<lambda>nm. hd (splitOn 47 nm)) (filter (\<lambda>nm. 47 \<in> set nm) (map fst files)))"
  by (auto simp: firstSegments_def)

lemma topLevelDirs_single:
  "topLevelDirs files = [topDir] \<Longrightarrow> firstSegments files = {topDir}"
proof -
  assume a: "topLevelDirs files = [topDir]"
  have "firstSegments files =
        set (map (\<lambda>nm. hd (splitOn 47 nm)) (filter (\<lambda>nm. 47 \<in> set nm) (map fst files)))"
    by (auto simp: firstSegments_def)
  with remdups_single[OF a[unfolded topLevelDirs_def]] show ?thesis by simp
qed

lemma locateSkillMd_Some:
  assumes "locateSkillMd files = Some (mdPath, pre)"
  shows "(SKILL_MARKDOWN \<in> set (fileNames files) \<and> mdPath = SKILL_MARKDOWN \<and> pre = []) \<or>
         (SKILL_MARKDOWN \<notin> set (fileNames files) \<and>
          (\<exists>topDir. firstSegments files = {topDir} \<and>
             topDir @ js ''/'' @ SKILL_MARKDOWN \<in> set (fileNames files) \<and>
             mdPath = topDir @ js ''/'' @ SKILL_MARKDOWN \<and> pre = topDir @ js ''/''))"
proof (cases "SKILL_MARKDOWN \<in> set (fileNames files)")
  case True
  with assms show ?thesis by (simp add: locateSkillMd_def)
next
  case False
  with assms obtain topDir where t: "topLevelDirs files = [topDir]"
    and c: "topDir @ js ''/'' @ SKILL_MARKDOWN \<in> set (fileNames files)"
    and m: "mdPath = topDir @ js ''/'' @ SKILL_MARKDOWN" and p: "pre = topDir @ js ''/''"
    by (auto simp: locateSkillMd_def Let_def split: list.splits if_splits)
  from t have "firstSegments files = {topDir}" by (rule topLevelDirs_single)
  with False c m p show ?thesis by blast
qed

lemma locateSkillMd_None:
  assumes "SKILL_MARKDOWN \<notin> set (fileNames files)"
    and "\<not> (\<exists>topDir. firstSegments files = {topDir} \<and>
               topDir @ js ''/'' @ SKILL_MARKDOWN \<in> set (fileNames files))"
  shows "locateSkillMd files = None"
proof (cases "locateSkillMd files")
  case None
  then show ?thesis .
next
  case (Some a)
  then obtain mdPath pre where "locateSkillMd files = Some (mdPath, pre)" by (cases a) auto
  from locateSkillMd_Some[OF this] assms show ?thesis by blast
qed

lemma tryRegisterZipSkill_registered:
  assumes "registered sk R (tryRegisterZipSkill P zp R)"
  shows "\<exists>zipData files mdPath pre.
           fs_readFileSync P zp = Inr zipData \<and> JSZip_loadAsync P zipData = Inr files \<and>
           locateSkillMd files = Some (mdPath, pre) \<and> zipRootPrefix sk = Some pre"
proof -
  have ne: "skillsBySlug (tryRegisterZipSkill P zp R) \<noteq> skillsBySlug R"
    using assms by (simp add: registered_def)
  have nh: "\<not> has (skillsBySlug R) (slug sk)"
    using assms by (simp add: registered_def)
  have last: "skillsBySlug (tryRegisterZipSkill P zp R) = skillsBySlug R @ [(slug sk, sk)]"
    using assms by (simp add: registered_def)
  show ?thesis
    using ne last
    by (auto simp: tryRegisterZipSkill_def Let_def mapSet_new
        split: sum.splits option.splits if_splits prod.splits)
qed


text \<open>
  Claim C9, as amended. \<open>tryRegisterZipSkill\<close> registers a skill only when the archive was read
  and \<open>SKILL.md\<close> is a file member at its root (root prefix empty) or, failing that, the
  member names that hold a slash all start with one segment \<open>topDir\<close> and \<open>topDir/SKILL.md\<close> is a
  file member (root prefix \<open>topDir/\<close>); members at the root, whose names hold no slash, are
  not looked at. When neither place holds \<open>SKILL.md\<close>, the call returns normally and the
  registry keeps its skills.
\<close>

theorem archive_skill_places:
  "(registered sk R (tryRegisterZipSkill P zp R) \<longrightarrow>
      (\<exists>zipData files.
         fs_readFileSync P zp = Inr zipData \<and> JSZip_loadAsync P zipData = Inr files \<and>
         ((SKILL_MARKDOWN \<in> set (fileNames files) \<and> zipRootPrefix sk = Some []) \<or>
          (SKILL_MARKDOWN \<notin> set (fileNames files) \<and>
           (\<exists>topDir. firstSegments files = {topDir} \<and>
              topDir @ js ''/'' @ SKILL_MARKDOWN \<in> set (fileNames files) \<and>
              zipRootPrefix sk = Some (topDir @ js ''/'')))))) \<and>
   (fs_readFileSync P zp = Inr zipData' \<and> JSZip_loadAsync P zipData' = Inr files' \<and>
    SKILL_MARKDOWN \<notin> set (fileNames files') \<and>
    \<not> (\<exists>topDir. firstSegments files' = {topDir} \<and>
           topDir @ js ''/'' @ SKILL_MARKDOWN \<in> set (fileNames files')) \<longrightarrow>
      tryRegisterZipSkill P zp R = visited (ZipSkill zp) R)"
proof (intro conjI impI)
  assume "registered sk R (tryRegisterZipSkill P zp R)"
  then obtain zipData files mdPath pre where
    rd: "fs_readFileSync P zp = Inr zipData" "JSZip_loadAsync P zipData = Inr files"
    and loc: "locateSkillMd files = Some (mdPath, pre)" and pre: "zipRootPrefix sk = Some pre"
    using tryRegisterZipSkill_registered by blast
  from locateSkillMd_Some[OF loc] pre
  have "(SKILL_MARKDOWN \<in> set (fileNames files) \<and> zipRootPrefix sk = Some []) \<or>
        (SKILL_MARKDOWN \<notin> set (fileNames files) \<and>
         (\<exists>topDir. firstSegments files = {topDir} \<and>
            topDir @ js ''/'' @ SKILL_MARKDOWN \<in> set (fileNames files) \<and>
            zipRootPrefix sk = Some (topDir @ js ''/'')))"
    by auto
  with rd show "\<exists>zipData files.
         fs_readFileSync P zp = Inr zipData \<and> JSZip_loadAsync P zipData = Inr files \<and>
         ((SKILL_MARKDOWN \<in> set (fileNames files) \<and> zipRootPrefix sk = Some []) \<or>
          (SKILL_MARKDOWN \<notin> set (fileNames files) \<and>
           (\<exists>topDir. firstSegments files = {topDir} \<and>
              topDir @ js ''/'' @ SKILL_MARKDOWN \<in> set (fileNames files) \<and>
              zipRootPrefix sk = Some (topDir @ js ''/''))))"
    by blast
next
  assume a: "fs_readFileSync P zp = Inr zipData' \<and> JSZip_loadAsync P zipData' = Inr files' \<and>
    SKILL_MARKDOWN \<notin> set (fileNames files') \<and>
    \<not> (\<exists>topDir. firstSegments files' = {topDir} \<and>
           topDir @ js ''/'' @ SKILL_MARKDOWN \<in> set (fileNames files'))"
  then have "locateSkillMd files' = None" using locateSkillMd_None by blast
  with a show "tryRegisterZipSkill P zp R = visited (ZipSkill zp) R"
    by (simp add: tryRegisterZipSkill_def Let_def)
qed

lemma demo_t_zip:
  "fs_readFileSync demoPlatform (js ''/skills/t.zip'') = Inr [80, 75, 4]"
  "JSZip_loadAsync demoPlatform [80, 75, 4] = Inr tZipFiles"
  "SKILL_MARKDOWN \<notin> set (fileNames tZipFiles)"
  "\<not> allUnder (js ''top'') tZipFiles"
  "js ''top/SKILL.md'' \<in> set (fileNames tZipFiles)"
  by (simp_all add: demo_fields demoFiles_def demoArchives_def lookupOr_def fileNames_def
      allUnder_def tZipFiles_def SKILL_MARKDOWN_def startsWith_def js_def)

lemma demo_t_registered:
  "registered barSkill fooRegistry
     (tryRegisterZipSkill demoPlatform (js ''/skills/t.zip'') fooRegistry)"
  by (simp add: fooRegistry_def demo_zip_registered registered_def has_def barSkill_def
      js_eq_iff)

text \<open>
  Claim C9 as stated fails: the archive \<open>t.zip\<close> is registered with the root prefix \<open>top/\<close>,
  though \<open>SKILL.md\<close> is not at its root and the directory \<open>top\<close> is not common to all its
  members: \<open>README.txt\<close> lies at the root.
\<close>

theorem archive_with_root_file_is_registered:
  "registered barSkill fooRegistry
     (tryRegisterZipSkill demoPlatform (js ''/skills/t.zip'') fooRegistry) \<and>
   zipRootPrefix barSkill = Some (js ''top/'') \<and>
   fs_readFileSync demoPlatform (js ''/skills/t.zip'') = Inr [80, 75, 4] \<and>
   JSZip_loadAsync demoPlatform [80, 75, 4] = Inr tZipFiles \<and>
   SKILL_MARKDOWN \<notin> set (fileNames tZipFiles) \<and>
   \<not> allUnder (js ''top'') tZipFiles"
  using demo_t_registered demo_t_zip by (simp add: barSkill_def)

lemma demo_two_zip:
  "fs_readFileSync demoPlatform (js ''/elsewhere/two.zip'') = Inr [80, 75, 5]"
  "JSZip_loadAsync demoPlatform [80, 75, 5] = Inr twoZipFiles"
  "SKILL_MARKDOWN \<notin> set (fileNames twoZipFiles)"
  "firstSegments twoZipFiles = {js ''x'', js ''y''}"
  by (simp_all add: demo_fields demoFiles_def demoArchives_def lookupOr_def fileNames_def
      firstSegments_list twoZipFiles_def SKILL_MARKDOWN_def js_def)

text \<open>
  Claim C9, two instances: \<open>t.zip\<close> is registered from its only directory \<open>top\<close>, and
  \<open>two.zip\<close>, whose members lie in two directories, is skipped.
\<close>

theorem archive_skill_places_witness:
  "registered barSkill fooRegistry
     (tryRegisterZipSkill demoPlatform (js ''/skills/t.zip'') fooRegistry) \<and>
   (\<exists>zipData files.
      fs_readFileSync demoPlatform (js ''/skills/t.zip'') = Inr zipData \<and>
      JSZip_loadAsync demoPlatform zipData = Inr files \<and>
      ((SKILL_MARKDOWN \<in> set (fileNames files) \<and> zipRootPrefix barSkill = Some []) \<or>
       (SKILL_MARKDOWN \<notin> set (fileNames files) \<and>
        (\<exists>topDir. firstSegments files = {topDir} \<and>
           topDir @ js ''/'' @ SKILL_MARKDOWN \<in> set (fileNames files) \<and>
           zipRootPrefix barSkill = Some (topDir @ js ''/''))))) \<and>
   fs_readFileSync demoPlatform (js ''/elsewhere/two.zip'') = Inr [80, 75, 5] \<and>
   JSZip_loadAsync demoPlatform [80, 75, 5] = Inr twoZipFiles \<and>
   SKILL_MARKDOWN \<notin> set (fileNames twoZipFiles) \<and>
   firstSegments twoZipFiles = {js ''x'', js ''y''} \<and>
   tryRegisterZipSkill demoPlatform (js ''/elsewhere/two.zip'') fooRegistry =
     visited (ZipSkill (js ''/elsewhere/two.zip'')) fooRegistry"
proof -
  have two: "\<not> (\<exists>topDir. firstSegments twoZipFiles = {topDir} \<and>
                topDir @ js ''/'' @ SKILL_MARKDOWN \<in> set (fileNames twoZipFiles))"
    by (auto simp: demo_two_zip(4) js_eq_iff doubleton_eq_iff)
  have a: "\<exists>zipData files.
      fs_readFileSync demoPlatform (js ''/skills/t.zip'') = Inr zipData \<and>
      JSZip_loadAsync demoPlatform zipData = Inr files \<and>
      ((SKILL_MARKDOWN \<in> set (fileNames files) \<and> zipRootPrefix barSkill = Some []) \<or>
       (SKILL_MARKDOWN \<notin> set (fileNames files) \<and>
        (\<exists>topDir. firstSegments files = {topDir} \<and>
           topDir @ js ''/'' @ SKILL_MARKDOWN \<in> set (fileNames files) \<and>
           zipRootPrefix barSkill = Some (topDir @ js ''/''))))"
    using archive_skill_places[where sk = barSkill and R = fooRegistry and P = demoPlatform
        and zp = "js ''/skills/t.zip''"] demo_t_registered by blast
  have b: "tryRegisterZipSkill demoPlatform (js ''/elsewhere/two.zip'') fooRegistry =
     visited (ZipSkill (js ''/elsewhere/two.zip'')) fooRegistry"
    using archive_skill_places[where R = fooRegistry and P = demoPlatform
        and zp = "js ''/elsewhere/two.zip''" and zipData' = "[80, 75, 5]"
        and files' = twoZipFiles] demo_two_zip(1-3) two by blast
  show ?thesis
    using demo_t_registered a b demo_two_zip by (intro conjI)
qed

section \<open>Order of the scan\<close>

lemma journal_registerDirSkill:
  "registerDirSkill n P d p R = Some R' \<Longrightarrow> journal R' = journal R @ [DirSkill d]"
  by (auto simp: registerDirSkill_def Let_def split: sum.splits option.splits if_splits)

lemma journal_tryRegisterZipSkill:
  "journal (tryRegisterZipSkill P zp R) = journal R @ [ZipSkill zp]"
  by (auto simp: tryRegisterZipSkill_def Let_def
      split: sum.splits option.splits if_splits prod.splits)

lemma journal_registerZips:
  "registerZips P d es R = Inr R' \<Longrightarrow>
   journal R' = journal R @ map ZipSkill (archivesOf P d es)"
proof (induction es arbitrary: R)
  case Nil
  then show ?case by (simp add: archivesOf_def)
next
  case (Cons e es)
  have step: "archivesOf P d (e # es) =
      (if existsSync P (joinPath P d e) \<and> isFile P (joinPath P d e) = Inr True \<and>
          isZipFile P (joinPath P d e)
       then joinPath P d e # archivesOf P d es else archivesOf P d es)"
    by (simp add: archivesOf_def)
  from Cons.prems show ?case
    by (auto simp: Let_def step journal_tryRegisterZipSkill
        split: if_splits sum.splits bool.splits dest!: Cons.IH)
qed

lemma subdirsOf_Cons:
  "subdirsOf P d (e # es) =
     (if isDirectory P (joinPath P d e) = Inr True then joinPath P d e # subdirsOf P d es
      else subdirsOf P d es)"
  by (simp add: subdirsOf_def)

lemma journal_scan:
  "scanDirectory n P d R = Some (Inr R') \<Longrightarrow> \<exists>seg. journal R' = journal R @ ScanDir d # seg"
  "scanSubdirs n P d es R = Some (Inr R') \<Longrightarrow>
   \<exists>segs. journal R' = journal R @ concat segs \<and> list_all2 scanOf segs (subdirsOf P d es)"
proof (induction n P d R and n P d es R arbitrary: R' and R' rule: scanDirectory_scanSubdirs.induct)
  case (1 P dirPath R0)
  then show ?case by simp
next
  case (2 n P dirPath R0)
  let ?R = "visited (ScanDir dirPath) R0"
  let ?md = "joinPath P dirPath SKILL_MARKDOWN"
  let ?c = "if existsSync P ?md then isFile P ?md else Inr False"
  from "2.prems" have res: "(case ?c of
      Inl e \<Rightarrow> Some (Inl e)
    | Inr True \<Rightarrow> (case registerDirSkill n P dirPath ?md ?R of
                     None \<Rightarrow> None | Some R1 \<Rightarrow> Some (Inr R1))
    | Inr False \<Rightarrow> (case fs_readdirSync P dirPath of
                      Inl e \<Rightarrow> Some (Inr ?R)
                    | Inr es \<Rightarrow> (case scanSubdirs n P dirPath (sort es) ?R of
                                   None \<Rightarrow> None
                                 | Some (Inl e) \<Rightarrow> Some (Inl e)
                                 | Some (Inr R1) \<Rightarrow>
                                     Some (registerZips P dirPath (sort (sort es)) R1))))
     = Some (Inr R')"
    by (simp add: Let_def)
  show ?case
  proof (cases ?c)
    case (Inl e)
    with res show ?thesis by simp
  next
    case (Inr b)
    show ?thesis
    proof (cases b)
      case True
      with Inr res obtain R1 where "registerDirSkill n P dirPath ?md ?R = Some R1" "R1 = R'"
        by (auto split: option.splits)
      then have "journal R' = journal ?R @ [DirSkill dirPath]"
        using journal_registerDirSkill by blast
      then show ?thesis by simp
    next
      case False
      show ?thesis
      proof (cases "fs_readdirSync P dirPath")
        case (Inl e)
        with Inr False res have "R' = ?R" by simp
        then show ?thesis by simp
      next
        case es: (Inr es)
        with Inr False res obtain R1 where
          s: "scanSubdirs n P dirPath (sort es) ?R = Some (Inr R1)"
          and z: "registerZips P dirPath (sort (sort es)) R1 = Inr R'"
          by (auto split: option.splits sum.splits)
        have c: "?c = Inr False" using Inr False by simp
        from "2.IH"[OF refl refl c refl es s]
        obtain segs where "journal R1 = journal ?R @ concat segs" by auto
        moreover from z have "journal R' = journal R1 @ map ZipSkill (archivesOf P dirPath (sort (sort es)))"
          by (rule journal_registerZips)
        ultimately show ?thesis by simp
      qed
    qed
  qed
next
  case (3 n P dirPath R)
  then show ?case by (simp add: subdirsOf_def)
next
  case (4 n P dirPath entry es R)
  let ?p = "joinPath P dirPath entry"
  show ?case
  proof (cases "isDirectory P ?p")
    case (Inl e)
    with "4.prems" show ?thesis by (simp add: Let_def)
  next
    case (Inr b)
    show ?thesis
    proof (cases b)
      case True
      with Inr "4.prems" obtain R1 where
        s1: "scanDirectory n P ?p R = Some (Inr R1)"
        and s2: "scanSubdirs n P dirPath es R1 = Some (Inr R')"
        by (auto simp: Let_def split: option.splits sum.splits)
      have d: "isDirectory P ?p = Inr True" using Inr True by simp
      from "4.IH"(1)[OF refl d refl s1]
      obtain seg where j1: "journal R1 = journal R @ ScanDir ?p # seg" by blast
      from "4.IH"(2)[OF refl d refl s1 refl s2]
      obtain segs where j2: "journal R' = journal R1 @ concat segs"
        and l: "list_all2 scanOf segs (subdirsOf P dirPath es)" by blast
      have "journal R' = journal R @ concat ((ScanDir ?p # seg) # segs)"
        using j1 j2 by simp
      moreover have "list_all2 scanOf ((ScanDir ?p # seg) # segs) (subdirsOf P dirPath (entry # es))"
        using l Inr True by (simp add: subdirsOf_Cons scanOf_def)
      ultimately show ?thesis by blast
    next
      case False
      with Inr "4.prems" have s2: "scanSubdirs n P dirPath es R = Some (Inr R')"
        by (simp add: Let_def)
      have d: "isDirectory P ?p = Inr False" using Inr False by simp
      from "4.IH"(3)[OF refl d refl s2]
      obtain segs where "journal R' = journal R @ concat segs"
        and "list_all2 scanOf segs (subdirsOf P dirPath es)" by blast
      then show ?thesis using Inr False by (auto simp: subdirsOf_Cons)
    qed
  qed
qed


lemma scanDirectory_skill_dir:
  assumes "existsSync P (joinPath P d SKILL_MARKDOWN)"
    and "isFile P (joinPath P d SKILL_MARKDOWN) = Inr True"
    and "scanDirectory n P d R = Some (Inr R')"
  shows "journal R' = journal R @ [ScanDir d, DirSkill d]"
proof (cases n)
  case 0
  with assms(3) show ?thesis by simp
next
  case (Suc m)
  with assms obtain R1 where
    "registerDirSkill m P d (joinPath P d SKILL_MARKDOWN) (visited (ScanDir d) R) = Some R1"
    and "R1 = R'"
    by (auto simp: Let_def split: option.splits)
  then have "journal R' = journal (visited (ScanDir d) R) @ [DirSkill d]"
    using journal_registerDirSkill by blast
  then show ?thesis by simp
qed

lemma scanDirectory_plain_dir:
  assumes "\<not> (existsSync P (joinPath P d SKILL_MARKDOWN) \<and>
               isFile P (joinPath P d SKILL_MARKDOWN) = Inr True)"
    and "fs_readdirSync P d = Inr es"
    and "scanDirectory n P d R = Some (Inr R')"
  shows "\<exists>segs. list_all2 scanOf segs (subdirsOf P d (sort es)) \<and>
           journal R' =
             journal R @ [ScanDir d] @ concat segs @ map ZipSkill (archivesOf P d (sort es))"
proof (cases n)
  case 0
  with assms(3) show ?thesis by simp
next
  case (Suc m)
  let ?md = "joinPath P d SKILL_MARKDOWN"
  have "(if existsSync P ?md then isFile P ?md else Inr False) \<noteq> Inr True"
    using assms(1) by auto
  with assms(2,3) Suc obtain R1 where
    s: "scanSubdirs m P d (sort es) (visited (ScanDir d) R) = Some (Inr R1)"
    and z: "registerZips P d (sort (sort es)) R1 = Inr R'"
    by (auto simp: Let_def split: option.splits sum.splits bool.splits if_splits)
  from journal_scan(2)[OF s] obtain segs where
    j1: "journal R1 = journal (visited (ScanDir d) R) @ concat segs"
    and l: "list_all2 scanOf segs (subdirsOf P d (sort es))" by blast
  have "sort (sort es) = sort es" by (simp add: sorted_sort_id)
  with z have "journal R' = journal R1 @ map ZipSkill (archivesOf P d (sort es))"
    using journal_registerZips by metis
  with j1 l show ?thesis by auto
qed

lemma demo_a_is_skill_dir:
  "existsSync demoPlatform (joinPath demoPlatform (js ''/skills/a'') SKILL_MARKDOWN)"
  "isFile demoPlatform (joinPath demoPlatform (js ''/skills/a'') SKILL_MARKDOWN) = Inr True"
  "isDirectory demoPlatform (js ''/skills/a/sub'') = Inr True"
  "\<not> existsSync demoPlatform (joinPath demoPlatform (js ''/skills'') SKILL_MARKDOWN)"
  by (simp_all add: demo_paths demo_kinds)
     (simp add: isDirectory_def demo_fields demoStats_def lookupOr_def js_def)

lemma demo_scan_a_foo:
  "scanDirectory (Suc (Suc (Suc 0))) demoPlatform (js ''/skills/a'')
     \<lparr>root = js ''/skills'', skillsBySlug = [], skillsByName = [],
      journal = [ScanDir (js ''/skills'')]\<rparr> = Some (Inr fooRegistry)"
  by (simp add: demo_scan_a fooRegistry_def del: scanDirectory.simps)

lemma demo_root_entries:
  "subdirsOf demoPlatform (js ''/skills'')
     (sort [js ''t.zip'', js ''b.txt'', js ''a.zip'', js ''a'']) = [js ''/skills/a'']"
  "archivesOf demoPlatform (js ''/skills'')
     (sort [js ''t.zip'', js ''b.txt'', js ''a.zip'', js ''a'']) =
     [js ''/skills/a.zip'', js ''/skills/t.zip'']"
proof -
  have f: "isFile demoPlatform (js ''/skills/a'') = Inr False"
    "isFile demoPlatform (js ''/skills/a.zip'') = Inr True"
    "isFile demoPlatform (js ''/skills/b.txt'') = Inr True"
    "isFile demoPlatform (js ''/skills/t.zip'') = Inr True"
    by (simp_all add: isFile_def demo_fields demoStats_def lookupOr_def js_def)
  have z: "isZipFile demoPlatform (js ''/skills/a.zip'')"
    "\<not> isZipFile demoPlatform (js ''/skills/b.txt'')"
    "isZipFile demoPlatform (js ''/skills/t.zip'')"
    by (simp_all add: isZipFile_def getExtension_def demo_fields afterLast_def string_defs)
  have e: "existsSync demoPlatform (js ''/skills/a.zip'')"
    "existsSync demoPlatform (js ''/skills/b.txt'')"
    "existsSync demoPlatform (js ''/skills/t.zip'')"
    by (simp_all add: existsSync_def demo_fields demoStats_def js_def)
  show "subdirsOf demoPlatform (js ''/skills'')
     (sort [js ''t.zip'', js ''b.txt'', js ''a.zip'', js ''a'']) = [js ''/skills/a'']"
    by (simp add: subdirsOf_def demo_sort demo_paths demo_kinds del: sort_key_simps)
  show "archivesOf demoPlatform (js ''/skills'')
     (sort [js ''t.zip'', js ''b.txt'', js ''a.zip'', js ''a'']) =
     [js ''/skills/a.zip'', js ''/skills/t.zip'']"
    by (simp add: archivesOf_def demo_sort demo_paths e f z del: sort_key_simps)
qed

subsection \<open>A larger bound changes nothing\<close>

lemma traverse_mono:
  "traverse n P ex d fs = Some r \<Longrightarrow> traverse (n + k) P ex d fs = Some r"
  "traverseEntries n P ex d es fs = Some r \<Longrightarrow> traverseEntries (n + k) P ex d es fs = Some r"
proof (induction n P ex d fs and n P ex d es fs arbitrary: r and r
    rule: traverse_traverseEntries.induct)
  case (1 P exclude currentPath files)
  then show ?case by simp
next
  case (2 n P exclude currentPath files)
  then show ?case by (auto split: sum.splits)
next
  case (3 n P exclude currentPath files)
  then show ?case by simp
next
  case (4 n P exclude currentPath entry es files)
  then show ?case
    by (auto simp: Let_def split: if_splits sum.splits bool.splits option.splits)
qed

lemma collectResources_mono:
  "collectResources n P d = Some r \<Longrightarrow> collectResources (n + k) P d = Some r"
  by (simp add: collectResources_def getAllFiles_def traverse_mono(1) Let_def)

lemma registerDirSkill_mono:
  "registerDirSkill n P d p R = Some R' \<Longrightarrow> registerDirSkill (n + k) P d p R = Some R'"
  by (auto simp: registerDirSkill_def Let_def dest: collectResources_mono[where k = k]
      split: sum.splits option.splits if_splits)

lemma scan_mono:
  "scanDirectory n P d R = Some r \<Longrightarrow> scanDirectory (n + k) P d R = Some r"
  "scanSubdirs n P d es R = Some r \<Longrightarrow> scanSubdirs (n + k) P d es R = Some r"
proof (induction n P d R and n P d es R arbitrary: r and r
    rule: scanDirectory_scanSubdirs.induct)
  case (1 P dirPath R0)
  then show ?case by simp
next
  case (2 n P dirPath R0)
  then show ?case
    by (auto simp: Let_def dest: registerDirSkill_mono[where k = k]
        split: if_splits sum.splits bool.splits option.splits)
next
  case (3 n P dirPath R)
  then show ?case by simp
next
  case (4 n P dirPath entry es R)
  then show ?case
    by (auto simp: Let_def split: if_splits sum.splits bool.splits option.splits)
qed

lemma scan_mono_le:
  "scanDirectory n P d R = Some r \<Longrightarrow> n \<le> k \<Longrightarrow> scanDirectory k P d R = Some r"
  using scan_mono(1)[of n P d R r "k - n"] by simp

subsection \<open>Over a finite tree the scan returns\<close>

lemma traverseEntries_total:
  assumes sub: "\<And>e fs. e \<in> set es \<Longrightarrow> isDirectory P (joinPath P d e) = Inr True \<Longrightarrow>
                  \<exists>n r. traverse n P ex (joinPath P d e) fs = Some r"
  shows "\<exists>n r. traverseEntries n P ex d es fs = Some r"
  using sub
proof (induction es arbitrary: fs)
  case Nil
  then show ?case by simp
next
  case (Cons e es)
  let ?p = "joinPath P d e"
  have rest: "\<exists>n r. traverseEntries n P ex d es fs' = Some r" for fs'
    using Cons.IH Cons.prems by simp
  show ?case
  proof (cases "ex ?p")
    case True
    from rest[of fs] obtain n r where "traverseEntries n P ex d es fs = Some r" by blast
    with True have "traverseEntries n P ex d (e # es) fs = Some r" by (simp add: Let_def)
    then show ?thesis by blast
  next
    case nex: False
    show ?thesis
    proof (cases "isDirectory P ?p")
      case (Inl err)
      with nex have "traverseEntries 0 P ex d (e # es) fs = Some (Inl err)"
        by (simp add: Let_def)
      then show ?thesis by blast
    next
      case (Inr b)
      show ?thesis
      proof (cases b)
        case True
        with Inr have dir: "isDirectory P ?p = Inr True" by simp
        from Cons.prems[OF _ dir, of fs] obtain n1 r1 where
          t1: "traverse n1 P ex ?p fs = Some r1" by auto
        show ?thesis
        proof (cases r1)
          case (Inl err)
          with t1 nex dir have "traverseEntries n1 P ex d (e # es) fs = Some (Inl err)"
            by (simp add: Let_def)
          then show ?thesis by blast
        next
          case (Inr fs')
          from rest[of fs'] obtain n2 r2 where
            t2: "traverseEntries n2 P ex d es fs' = Some r2" by blast
          have a: "traverse (n1 + n2) P ex ?p fs = Some (Inr fs')"
            using traverse_mono(1)[OF t1] Inr by simp
          have b: "traverseEntries (n1 + n2) P ex d es fs' = Some r2"
            using traverse_mono(2)[OF t2, of n1] by (simp add: add.commute)
          have "traverseEntries (n1 + n2) P ex d (e # es) fs = Some r2"
            using nex dir a b by (simp add: Let_def)
          then show ?thesis by blast
        qed
      next
        case False
        with Inr have ndir: "isDirectory P ?p = Inr False" by simp
        show ?thesis
        proof (cases "isFile P ?p")
          case (Inl err)
          with nex ndir have "traverseEntries 0 P ex d (e # es) fs = Some (Inl err)"
            by (simp add: Let_def)
          then show ?thesis by blast
        next
          case f: (Inr c)
          obtain n r where
            "traverseEntries n P ex d es (if c then fs @ [?p] else fs) = Some r"
            using rest by blast
          with nex ndir f have "traverseEntries n P ex d (e # es) fs = Some r"
            by (cases c) (simp_all add: Let_def)
          then show ?thesis by blast
        qed
      qed
    qed
  qed
qed

lemma traverse_total: "finiteBelow P d \<Longrightarrow> \<exists>n r. traverse n P ex d fs = Some r"
proof (induction d arbitrary: fs rule: finiteBelow.induct)
  case (finiteBelowI d)
  show ?case
  proof (cases "fs_readdirSync P d")
    case (Inl err)
    then have "traverse (Suc 0) P ex d fs = Some (Inl (LibraryError err))" by simp
    then show ?thesis by blast
  next
    case (Inr es)
    have "\<exists>n r. traverseEntries n P ex d es fs = Some r"
      using finiteBelowI.IH[OF Inr] by (intro traverseEntries_total) blast
    then obtain n r where "traverseEntries n P ex d es fs = Some r" by blast
    with Inr have "traverse (Suc n) P ex d fs = Some r" by simp
    then show ?thesis by blast
  qed
qed

lemma registerDirSkill_total:
  assumes "finiteBelow P d"
  shows "\<exists>n R'. registerDirSkill n P d p R = Some R'"
proof -
  obtain n r where
    "traverse n P (\<lambda>filePath. filePath = joinPath P d SKILL_MARKDOWN) d [] = Some r"
    using traverse_total[OF assms] by blast
  then have "collectResources n P d = Some r"
    by (simp add: collectResources_def getAllFiles_def Let_def)
  then have "registerDirSkill n P d p R \<noteq> None"
    by (simp add: registerDirSkill_def Let_def split: sum.splits)
  then show ?thesis by blast
qed

lemma scanSubdirs_total:
  assumes sub: "\<And>e R. e \<in> set es \<Longrightarrow> isDirectory P (joinPath P d e) = Inr True \<Longrightarrow>
                  \<exists>n r. scanDirectory n P (joinPath P d e) R = Some r"
  shows "\<exists>n r. scanSubdirs n P d es R = Some r"
  using sub
proof (induction es arbitrary: R)
  case Nil
  then show ?case by simp
next
  case (Cons e es)
  let ?p = "joinPath P d e"
  have rest: "\<exists>n r. scanSubdirs n P d es R1 = Some r" for R1
    using Cons.IH Cons.prems by simp
  show ?case
  proof (cases "isDirectory P ?p")
    case (Inl err)
    then have "scanSubdirs 0 P d (e # es) R = Some (Inl err)" by (simp add: Let_def)
    then show ?thesis by blast
  next
    case (Inr b)
    show ?thesis
    proof (cases b)
      case True
      with Inr have dir: "isDirectory P ?p = Inr True" by simp
      from Cons.prems[OF _ dir, of R] obtain n1 r1 where
        t1: "scanDirectory n1 P ?p R = Some r1" by auto
      show ?thesis
      proof (cases r1)
        case (Inl err)
        with t1 dir have "scanSubdirs n1 P d (e # es) R = Some (Inl err)"
          by (simp add: Let_def)
        then show ?thesis by blast
      next
        case (Inr R1)
        from rest[of R1] obtain n2 r2 where t2: "scanSubdirs n2 P d es R1 = Some r2" by blast
        have a: "scanDirectory (n1 + n2) P ?p R = Some (Inr R1)"
          using scan_mono(1)[OF t1] Inr by simp
        have b: "scanSubdirs (n1 + n2) P d es R1 = Some r2"
          using scan_mono(2)[OF t2, of n1] by (simp add: add.commute)
        have "scanSubdirs (n1 + n2) P d (e # es) R = Some r2"
          using dir a b by (simp add: Let_def)
        then show ?thesis by blast
      qed
    next
      case False
      from rest[of R] obtain n r where "scanSubdirs n P d es R = Some r" by blast
      with Inr False have "scanSubdirs n P d (e # es) R = Some r" by (simp add: Let_def)
      then show ?thesis by blast
    qed
  qed
qed

lemma scanDirectory_total: "finiteBelow P d \<Longrightarrow> \<exists>n r. scanDirectory n P d R = Some r"
proof (induction d arbitrary: R rule: finiteBelow.induct)
  case (finiteBelowI d)
  have fin: "finiteBelow P d"
    by (rule finiteBelow.intros) (rule finiteBelowI.hyps)
  let ?md = "joinPath P d SKILL_MARKDOWN"
  let ?R = "visited (ScanDir d) R"
  let ?c = "if existsSync P ?md then isFile P ?md else Inr False"
  show ?case
  proof (cases ?c)
    case (Inl err)
    then have "scanDirectory (Suc 0) P d R = Some (Inl err)" by (simp add: Let_def)
    then show ?thesis by blast
  next
    case (Inr b)
    show ?thesis
    proof (cases b)
      case True
      obtain n R' where "registerDirSkill n P d ?md ?R = Some R'"
        using registerDirSkill_total[OF fin] by blast
      with Inr True have "scanDirectory (Suc n) P d R = Some (Inr R')"
        by (simp add: Let_def)
      then show ?thesis by blast
    next
      case False
      with Inr have c: "?c = Inr False" by simp
      show ?thesis
      proof (cases "fs_readdirSync P d")
        case (Inl err)
        with c have "scanDirectory (Suc 0) P d R = Some (Inr ?R)" by (simp add: Let_def)
        then show ?thesis by blast
      next
        case es: (Inr es)
        have sub: "\<exists>n r. scanDirectory n P (joinPath P d e) R1 = Some r"
          if "e \<in> set (sort es)" and dir: "isDirectory P (joinPath P d e) = Inr True"
          for e R1
        proof -
          from that(1) have "e \<in> set es" by simp
          from finiteBelowI.IH[OF es this dir] show ?thesis .
        qed
        obtain n r where s: "scanSubdirs n P d (sort es) ?R = Some r"
          using scanSubdirs_total[of "sort es" P d ?R, OF sub] by blast
        have "\<exists>r'. scanDirectory (Suc n) P d R = Some r'"
          using c es s by (cases r) (simp_all add: Let_def)
        then show ?thesis by blast
      qed
    qed
  qed
qed

subsection \<open>The two phases\<close>

lemma scanSubdirs_scanEach:
  "scanSubdirs n P d es R = Some (Inr R1) \<Longrightarrow>
   scanEach n P (subdirsOf P d es) R = Some (Inr R1)"
proof (induction es arbitrary: R)
  case Nil
  then show ?case by (simp add: subdirsOf_def)
next
  case (Cons e es)
  let ?p = "joinPath P d e"
  show ?case
  proof (cases "isDirectory P ?p")
    case (Inl err)
    with Cons.prems show ?thesis by (simp add: Let_def)
  next
    case (Inr b)
    show ?thesis
    proof (cases b)
      case True
      with Inr have dir: "isDirectory P ?p = Inr True" by simp
      with Cons.prems obtain R0 where
        s1: "scanDirectory n P ?p R = Some (Inr R0)"
        and s2: "scanSubdirs n P d es R0 = Some (Inr R1)"
        by (auto simp: Let_def split: option.splits sum.splits)
      from Cons.IH[OF s2] s1 dir show ?thesis by (simp add: subdirsOf_Cons)
    next
      case False
      with Inr have ndir: "isDirectory P ?p = Inr False" by simp
      with Cons.prems have "scanSubdirs n P d es R = Some (Inr R1)" by (simp add: Let_def)
      from Cons.IH[OF this] ndir show ?thesis by (simp add: subdirsOf_Cons)
    qed
  qed
qed

lemma registerZips_tryEach:
  "registerZips P d es R = Inr R' \<Longrightarrow> R' = tryEach P (archivesOf P d es) R"
proof (induction es arbitrary: R)
  case Nil
  then show ?case by (simp add: archivesOf_def)
next
  case (Cons e es)
  have step: "archivesOf P d (e # es) =
      (if existsSync P (joinPath P d e) \<and> isFile P (joinPath P d e) = Inr True \<and>
          isZipFile P (joinPath P d e)
       then joinPath P d e # archivesOf P d es else archivesOf P d es)"
    by (simp add: archivesOf_def)
  from Cons.prems show ?case
    by (auto simp: Let_def step split: if_splits sum.splits bool.splits dest!: Cons.IH)
qed

lemma scanDirectory_skill_dir_result:
  assumes "existsSync P (joinPath P d SKILL_MARKDOWN)"
    and "isFile P (joinPath P d SKILL_MARKDOWN) = Inr True"
    and "scanDirectory n P d R = Some (Inr R')"
  shows "\<exists>m. n = Suc m \<and>
           registerDirSkill m P d (joinPath P d SKILL_MARKDOWN) (visited (ScanDir d) R) = Some R'"
proof (cases n)
  case 0
  with assms(3) show ?thesis by simp
next
  case (Suc m)
  with assms show ?thesis by (auto simp: Let_def split: option.splits)
qed

lemma scanDirectory_plain_dir_result:
  assumes "\<not> (existsSync P (joinPath P d SKILL_MARKDOWN) \<and>
               isFile P (joinPath P d SKILL_MARKDOWN) = Inr True)"
    and "fs_readdirSync P d = Inr es"
    and "scanDirectory n P d R = Some (Inr R')"
  shows "\<exists>m R1. n = Suc m \<and>
           scanEach m P (subdirsOf P d (sort es)) (visited (ScanDir d) R) = Some (Inr R1) \<and>
           R' = tryEach P (archivesOf P d (sort es)) R1 \<and>
           journal R' = journal R1 @ map ZipSkill (archivesOf P d (sort es))"
proof (cases n)
  case 0
  with assms(3) show ?thesis by simp
next
  case (Suc m)
  let ?md = "joinPath P d SKILL_MARKDOWN"
  have "(if existsSync P ?md then isFile P ?md else Inr False) \<noteq> Inr True"
    using assms(1) by auto
  with assms(2,3) Suc obtain R1 where
    s: "scanSubdirs m P d (sort es) (visited (ScanDir d) R) = Some (Inr R1)"
    and z: "registerZips P d (sort (sort es)) R1 = Inr R'"
    by (auto simp: Let_def split: option.splits sum.splits bool.splits if_splits)
  have ss: "sort (sort es) = sort es" by (simp add: sorted_sort_id)
  from z have z': "registerZips P d (sort es) R1 = Inr R'" by (simp only: ss)
  from scanSubdirs_scanEach[OF s] registerZips_tryEach[OF z'] journal_registerZips[OF z'] Suc
  show ?thesis by blast
qed

subsection \<open>The order of the scan\<close>

text \<open>
  Claim C6. A scan that returns from a directory holding the file \<open>SKILL.md\<close> has done
  nothing but try that directory as one skill: its result is the result of
  \<open>registerDirSkill\<close> on the directory, and the journal has grown by the entry of the
  directory and one directory candidate, so no subdirectory was entered. A scan that returns
  from any other directory with the entries \<open>es\<close> has first scanned the subdirectories among
  \<open>sort es\<close>, one after the other in that order, each from the registry the one before left
  (\<open>scanEach\<close>), and only then tried the archives among \<open>sort es\<close>, one after the other in
  that order, from the registry the last subdirectory left (\<open>tryEach\<close>); the journal shows
  the same order. The scan of a directory over a finite tree returns for some bound of the
  depth, and what it returns for one bound it returns for every larger one.
\<close>

theorem scan_order:
  "(existsSync P (joinPath P d SKILL_MARKDOWN) \<and>
    isFile P (joinPath P d SKILL_MARKDOWN) = Inr True \<and>
    scanDirectory n P d R = Some (Inr R') \<longrightarrow>
      (\<exists>m. n = Suc m \<and>
         registerDirSkill m P d (joinPath P d SKILL_MARKDOWN) (visited (ScanDir d) R) = Some R') \<and>
      journal R' = journal R @ [ScanDir d, DirSkill d]) \<and>
   (\<not> (existsSync P (joinPath P d SKILL_MARKDOWN) \<and>
        isFile P (joinPath P d SKILL_MARKDOWN) = Inr True) \<and>
    fs_readdirSync P d = Inr es \<and> scanDirectory n P d R = Some (Inr R'') \<longrightarrow>
      sorted (sort es) \<and>
      (\<exists>m R1. n = Suc m \<and>
         scanEach m P (subdirsOf P d (sort es)) (visited (ScanDir d) R) = Some (Inr R1) \<and>
         R'' = tryEach P (archivesOf P d (sort es)) R1 \<and>
         journal R'' = journal R1 @ map ZipSkill (archivesOf P d (sort es))) \<and>
      (\<exists>segs. list_all2 scanOf segs (subdirsOf P d (sort es)) \<and>
         journal R'' =
           journal R @ [ScanDir d] @ concat segs @ map ZipSkill (archivesOf P d (sort es)))) \<and>
   (finiteBelow P d \<longrightarrow> (\<exists>k r. scanDirectory k P d R = Some r)) \<and>
   (scanDirectory n P d R = Some r \<and> n \<le> k \<longrightarrow> scanDirectory k P d R = Some r)"
proof (intro conjI impI)
  assume a: "existsSync P (joinPath P d SKILL_MARKDOWN) \<and>
    isFile P (joinPath P d SKILL_MARKDOWN) = Inr True \<and>
    scanDirectory n P d R = Some (Inr R')"
  then show "\<exists>m. n = Suc m \<and>
         registerDirSkill m P d (joinPath P d SKILL_MARKDOWN) (visited (ScanDir d) R) = Some R'"
    using scanDirectory_skill_dir_result[of P d n R R'] by blast
  from a show "journal R' = journal R @ [ScanDir d, DirSkill d]"
    using scanDirectory_skill_dir[of P d n R R'] by blast
next
  show "sorted (sort es)" by (simp only: sorted_sort)
next
  assume a: "\<not> (existsSync P (joinPath P d SKILL_MARKDOWN) \<and>
        isFile P (joinPath P d SKILL_MARKDOWN) = Inr True) \<and>
    fs_readdirSync P d = Inr es \<and> scanDirectory n P d R = Some (Inr R'')"
  then show "\<exists>m R1. n = Suc m \<and>
         scanEach m P (subdirsOf P d (sort es)) (visited (ScanDir d) R) = Some (Inr R1) \<and>
         R'' = tryEach P (archivesOf P d (sort es)) R1 \<and>
         journal R'' = journal R1 @ map ZipSkill (archivesOf P d (sort es))"
    using scanDirectory_plain_dir_result[of P d es n R R''] by blast
  from a show "\<exists>segs. list_all2 scanOf segs (subdirsOf P d (sort es)) \<and>
         journal R'' =
           journal R @ [ScanDir d] @ concat segs @ map ZipSkill (archivesOf P d (sort es))"
    using scanDirectory_plain_dir[of P d es n R R''] by blast
next
  assume "finiteBelow P d"
  then show "\<exists>k r. scanDirectory k P d R = Some r" by (rule scanDirectory_total)
next
  assume "scanDirectory n P d R = Some r \<and> n \<le> k"
  then show "scanDirectory k P d R = Some r" using scan_mono_le by blast
qed

lemma demo_readdirs:
  "fs_readdirSync demoPlatform (js ''/skills/a'') =
     Inr [js ''SKILL.md'', js ''data.bin'', js ''my file.txt'', js ''sub'']"
  "fs_readdirSync demoPlatform (js ''/skills/a/sub'') = Inr [js ''SKILL.md'']"
  by (simp_all add: demo_fields demoDirs_def lookupOr_def js_def)

lemma demo_below_a:
  "isDirectory demoPlatform (joinPath demoPlatform (js ''/skills/a/sub'') (js ''SKILL.md'')) =
     Inr False"
  "isDirectory demoPlatform (joinPath demoPlatform (js ''/skills/a'') (js ''SKILL.md'')) =
     Inr False"
  "isDirectory demoPlatform (joinPath demoPlatform (js ''/skills/a'') (js ''data.bin'')) =
     Inr False"
  "isDirectory demoPlatform (joinPath demoPlatform (js ''/skills/a'') (js ''my file.txt'')) =
     Inr False"
  "joinPath demoPlatform (js ''/skills/a'') (js ''sub'') = js ''/skills/a/sub''"
  by (simp_all add: isDirectory_def joinPath_def demo_fields demoStats_def lookupOr_def js_def)

lemma demo_finiteBelow: "finiteBelow demoPlatform (js ''/skills'')"
proof -
  have sub: "finiteBelow demoPlatform (js ''/skills/a/sub'')"
    by (rule finiteBelow.intros) (auto simp: demo_readdirs demo_below_a)
  have a: "finiteBelow demoPlatform (js ''/skills/a'')"
    by (rule finiteBelow.intros) (auto simp: demo_readdirs demo_below_a sub)
  show ?thesis
    by (rule finiteBelow.intros) (auto simp: demo_readdir demo_paths demo_kinds a)
qed

lemma demo_register_a:
  "registerDirSkill (Suc (Suc 0)) demoPlatform (js ''/skills/a'')
     (joinPath demoPlatform (js ''/skills/a'') SKILL_MARKDOWN)
     (visited (ScanDir (js ''/skills/a''))
        \<lparr>root = js ''/skills'', skillsBySlug = [], skillsByName = [],
         journal = [ScanDir (js ''/skills'')]\<rparr>) = Some fooRegistry"
  by (simp add: demo_paths visited_def demo_registerDirSkill fooRegistry_def)

lemma demo_scanEach_root:
  "scanEach (Suc (Suc (Suc 0))) demoPlatform [js ''/skills/a'']
     (visited (ScanDir (js ''/skills''))
        \<lparr>root = js ''/skills'', skillsBySlug = [], skillsByName = [], journal = []\<rparr>) =
   Some (Inr fooRegistry)"
  by (simp add: visited_def demo_scan_a fooRegistry_def del: scanDirectory.simps)

lemma demo_tryEach_root:
  "tryEach demoPlatform [js ''/skills/a.zip'', js ''/skills/t.zip''] fooRegistry = demoRegistry"
  by (simp add: fooRegistry_def demoRegistry_def demo_zip_rejected demo_zip_registered)

text \<open>
  Claim C6 on the small skills root: the scan of the skill directory \<open>a\<close>, which has the
  subdirectory \<open>sub\<close>, and the scan of the root, whose entries are listed as \<open>t.zip\<close>,
  \<open>b.txt\<close>, \<open>a.zip\<close>, \<open>a\<close>.
\<close>

theorem scan_order_witness:
  "existsSync demoPlatform (joinPath demoPlatform (js ''/skills/a'') SKILL_MARKDOWN) \<and>
   isFile demoPlatform (joinPath demoPlatform (js ''/skills/a'') SKILL_MARKDOWN) = Inr True \<and>
   isDirectory demoPlatform (js ''/skills/a/sub'') = Inr True \<and>
   scanDirectory (Suc (Suc (Suc 0))) demoPlatform (js ''/skills/a'')
     \<lparr>root = js ''/skills'', skillsBySlug = [], skillsByName = [],
      journal = [ScanDir (js ''/skills'')]\<rparr> = Some (Inr fooRegistry) \<and>
   registerDirSkill (Suc (Suc 0)) demoPlatform (js ''/skills/a'')
     (joinPath demoPlatform (js ''/skills/a'') SKILL_MARKDOWN)
     (visited (ScanDir (js ''/skills/a''))
        \<lparr>root = js ''/skills'', skillsBySlug = [], skillsByName = [],
         journal = [ScanDir (js ''/skills'')]\<rparr>) = Some fooRegistry \<and>
   journal fooRegistry =
     [ScanDir (js ''/skills'')] @ [ScanDir (js ''/skills/a''), DirSkill (js ''/skills/a'')] \<and>
   \<not> existsSync demoPlatform (joinPath demoPlatform (js ''/skills'') SKILL_MARKDOWN) \<and>
   fs_readdirSync demoPlatform (js ''/skills'') =
     Inr [js ''t.zip'', js ''b.txt'', js ''a.zip'', js ''a''] \<and>
   scanDirectory (Suc (Suc (Suc (Suc 0)))) demoPlatform (js ''/skills'')
     \<lparr>root = js ''/skills'', skillsBySlug = [], skillsByName = [], journal = []\<rparr> =
     Some (Inr demoRegistry) \<and>
   subdirsOf demoPlatform (js ''/skills'')
     (sort [js ''t.zip'', js ''b.txt'', js ''a.zip'', js ''a'']) = [js ''/skills/a''] \<and>
   archivesOf demoPlatform (js ''/skills'')
     (sort [js ''t.zip'', js ''b.txt'', js ''a.zip'', js ''a'']) =
     [js ''/skills/a.zip'', js ''/skills/t.zip''] \<and>
   scanEach (Suc (Suc (Suc 0))) demoPlatform [js ''/skills/a'']
     (visited (ScanDir (js ''/skills''))
        \<lparr>root = js ''/skills'', skillsBySlug = [], skillsByName = [], journal = []\<rparr>) =
     Some (Inr fooRegistry) \<and>
   demoRegistry =
     tryEach demoPlatform [js ''/skills/a.zip'', js ''/skills/t.zip''] fooRegistry \<and>
   journal demoRegistry =
     journal fooRegistry @ map ZipSkill [js ''/skills/a.zip'', js ''/skills/t.zip''] \<and>
   (\<exists>segs. list_all2 scanOf segs [js ''/skills/a''] \<and>
      journal demoRegistry =
        [ScanDir (js ''/skills'')] @ concat segs @
        map ZipSkill [js ''/skills/a.zip'', js ''/skills/t.zip'']) \<and>
   finiteBelow demoPlatform (js ''/skills'') \<and>
   (\<exists>k r. scanDirectory k demoPlatform (js ''/skills'')
      \<lparr>root = js ''/skills'', skillsBySlug = [], skillsByName = [], journal = []\<rparr> = Some r) \<and>
   Suc (Suc (Suc (Suc 0))) \<le> Suc (Suc (Suc (Suc (Suc (Suc (Suc 0)))))) \<and>
   scanDirectory (Suc (Suc (Suc (Suc (Suc (Suc (Suc 0))))))) demoPlatform (js ''/skills'')
     \<lparr>root = js ''/skills'', skillsBySlug = [], skillsByName = [], journal = []\<rparr> =
     Some (Inr demoRegistry)"
proof -
  let ?Ra = "\<lparr>root = js ''/skills'', skillsBySlug = [], skillsByName = [],
               journal = [ScanDir (js ''/skills'')]\<rparr>"
  let ?R0 = "\<lparr>root = js ''/skills'', skillsBySlug = [], skillsByName = [], journal = []\<rparr>"
  let ?es = "[js ''t.zip'', js ''b.txt'', js ''a.zip'', js ''a'']"
  note atA = scan_order[where P = demoPlatform and d = "js ''/skills/a''"
        and n = "Suc (Suc (Suc 0))" and R' = fooRegistry and R = ?Ra]
  note atRoot = scan_order[where P = demoPlatform and d = "js ''/skills''"
        and n = "Suc (Suc (Suc (Suc 0)))" and R'' = demoRegistry and es = ?es and R = ?R0
        and r = "Inr demoRegistry" and k = "Suc (Suc (Suc (Suc (Suc (Suc (Suc 0))))))"]
  have a1: "registerDirSkill (Suc (Suc 0)) demoPlatform (js ''/skills/a'')
     (joinPath demoPlatform (js ''/skills/a'') SKILL_MARKDOWN)
     (visited (ScanDir (js ''/skills/a'')) ?Ra) = Some fooRegistry"
    using atA demo_a_is_skill_dir(1,2) demo_scan_a_foo by simp
  have a2: "journal fooRegistry =
     [ScanDir (js ''/skills'')] @ [ScanDir (js ''/skills/a''), DirSkill (js ''/skills/a'')]"
    using atA demo_a_is_skill_dir(1,2) demo_scan_a_foo by simp
  from atRoot demo_a_is_skill_dir(4) demo_readdir demo_scan_root
  have b: "(\<exists>m R1. Suc (Suc (Suc (Suc 0))) = Suc m \<and>
         scanEach m demoPlatform (subdirsOf demoPlatform (js ''/skills'') (sort ?es))
           (visited (ScanDir (js ''/skills'')) ?R0) = Some (Inr R1) \<and>
         demoRegistry = tryEach demoPlatform (archivesOf demoPlatform (js ''/skills'') (sort ?es)) R1 \<and>
         journal demoRegistry =
           journal R1 @ map ZipSkill (archivesOf demoPlatform (js ''/skills'') (sort ?es)))"
    and b3: "(\<exists>segs. list_all2 scanOf segs (subdirsOf demoPlatform (js ''/skills'') (sort ?es)) \<and>
         journal demoRegistry =
           journal ?R0 @ [ScanDir (js ''/skills'')] @ concat segs @
           map ZipSkill (archivesOf demoPlatform (js ''/skills'') (sort ?es)))"
    by blast+
  from b obtain R1 where
    r1: "scanEach (Suc (Suc (Suc 0))) demoPlatform [js ''/skills/a'']
           (visited (ScanDir (js ''/skills'')) ?R0) = Some (Inr R1)"
    and r2: "demoRegistry =
       tryEach demoPlatform [js ''/skills/a.zip'', js ''/skills/t.zip''] R1"
    and r3: "journal demoRegistry =
       journal R1 @ map ZipSkill [js ''/skills/a.zip'', js ''/skills/t.zip'']"
    unfolding demo_root_entries by blast
  from r1 have R1: "R1 = fooRegistry" by (simp only: demo_scanEach_root option.inject sum.inject)
  have b1: "scanEach (Suc (Suc (Suc 0))) demoPlatform [js ''/skills/a'']
           (visited (ScanDir (js ''/skills'')) ?R0) = Some (Inr fooRegistry)"
    using r1 R1 by (simp only:)
  have b2: "demoRegistry =
       tryEach demoPlatform [js ''/skills/a.zip'', js ''/skills/t.zip''] fooRegistry"
    using r2 R1 by (simp only:)
  have b2': "journal demoRegistry =
       journal fooRegistry @ map ZipSkill [js ''/skills/a.zip'', js ''/skills/t.zip'']"
    using r3 R1 by (simp only:)
  have b3': "\<exists>segs. list_all2 scanOf segs [js ''/skills/a''] \<and>
      journal demoRegistry =
        [ScanDir (js ''/skills'')] @ concat segs @
        map ZipSkill [js ''/skills/a.zip'', js ''/skills/t.zip'']"
    using b3 unfolding demo_root_entries by simp
  have c: "\<exists>k r. scanDirectory k demoPlatform (js ''/skills'') ?R0 = Some r"
    using atRoot demo_finiteBelow by blast
  have le: "Suc (Suc (Suc (Suc 0))) \<le> Suc (Suc (Suc (Suc (Suc (Suc (Suc 0))))))" by simp
  have d: "scanDirectory (Suc (Suc (Suc (Suc (Suc (Suc (Suc 0))))))) demoPlatform (js ''/skills'')
     ?R0 = Some (Inr demoRegistry)"
    using atRoot demo_scan_root le by blast
  show ?thesis
    using a1 a2 b1 b2 b2' b3' c d le demo_a_is_skill_dir demo_scan_a_foo demo_readdir
      demo_scan_root demo_root_entries demo_finiteBelow
    by (intro conjI)
qed

section \<open>The slugs of the discovered skills\<close>

lemma registerDirSkill_slug:
  assumes "registerDirSkill n P d p R = Some R'"
  shows "sameSkills R R' \<or>
         (\<exists>sk. registered sk R R' \<and>
            slug sk = slugify (String_toLowerCase P) (name (metadata sk)))"
  using assms
  by (auto simp: registerDirSkill_def Let_def sameSkills_def registered_def mapSet_new
      split: sum.splits option.splits if_splits)

lemma tryRegisterZipSkill_slug:
  "sameSkills R (tryRegisterZipSkill P zp R) \<or>
   (\<exists>sk. registered sk R (tryRegisterZipSkill P zp R) \<and>
      slug sk = slugify (String_toLowerCase P) (name (metadata sk)))"
  by (auto simp: tryRegisterZipSkill_def Let_def sameSkills_def registered_def mapSet_new
      split: sum.splits option.splits if_splits prod.splits)

lemma slugsDerived_same: "sameSkills R R' \<Longrightarrow> slugsDerived P R \<Longrightarrow> slugsDerived P R'"
  by (simp add: slugsDerived_def sameSkills_def)

lemma slugsDerived_registered:
  "registered sk R R' \<Longrightarrow> slug sk = slugify (String_toLowerCase P) (name (metadata sk)) \<Longrightarrow>
   slugsDerived P R \<Longrightarrow> slugsDerived P R'"
  by (auto simp: slugsDerived_def registered_def)

lemma slugsDerived_registerDirSkill:
  "registerDirSkill n P d p R = Some R' \<Longrightarrow> slugsDerived P R \<Longrightarrow> slugsDerived P R'"
  using registerDirSkill_slug slugsDerived_same slugsDerived_registered by blast

lemma slugsDerived_tryRegisterZipSkill:
  "slugsDerived P R \<Longrightarrow> slugsDerived P (tryRegisterZipSkill P zp R)"
  using tryRegisterZipSkill_slug[of R P zp] slugsDerived_same slugsDerived_registered by blast

lemma slugsDerived_registerZips:
  "registerZips P d es R = Inr R' \<Longrightarrow> slugsDerived P R \<Longrightarrow> slugsDerived P R'"
proof (induction es arbitrary: R)
  case Nil
  then show ?case by simp
next
  case (Cons e es)
  then show ?case
    by (auto simp: Let_def slugsDerived_tryRegisterZipSkill
        split: if_splits sum.splits bool.splits)
qed

lemma slugsDerived_scan:
  "scanDirectory n P d R = Some (Inr R') \<Longrightarrow> slugsDerived P R \<Longrightarrow> slugsDerived P R'"
  "scanSubdirs n P d es R = Some (Inr R') \<Longrightarrow> slugsDerived P R \<Longrightarrow> slugsDerived P R'"
proof (induction n P d R and n P d es R arbitrary: R' and R' rule: scanDirectory_scanSubdirs.induct)
  case (1 P dirPath R0)
  then show ?case by simp
next
  case (2 n P dirPath R0)
  have v: "slugsDerived P R0 \<Longrightarrow> slugsDerived P (visited (ScanDir dirPath) R0)"
    using slugsDerived_same sameSkills_visited by blast
  show ?case
    using 2 v
    by (auto simp: Let_def split: if_splits sum.splits bool.splits option.splits
        dest: slugsDerived_registerDirSkill slugsDerived_registerZips)
next
  case (3 n P dirPath R)
  then show ?case by simp
next
  case (4 n P dirPath entry es R)
  then show ?case
    by (auto simp: Let_def split: if_splits sum.splits bool.splits option.splits)
qed

lemma slugsDerived_load: "load n P R = Some (Inr R') \<Longrightarrow> slugsDerived P R'"
proof -
  have c: "slugsDerived P (R\<lparr>skillsBySlug := [], skillsByName := [], journal := []\<rparr>)"
    by (simp add: slugsDerived_def)
  show "load n P R = Some (Inr R') \<Longrightarrow> slugsDerived P R'"
    using slugsDerived_scan(1)[OF _ c]
    by (auto simp: load_def split: if_splits sum.splits bool.splits)
qed

lemma load_total:
  assumes "finiteBelow P (path_resolve P (root R))"
  shows "\<exists>k r. load k P R = Some r"
proof -
  from scanDirectory_total[OF assms]
  obtain k r where "scanDirectory k P (path_resolve P (root R))
      (R\<lparr>skillsBySlug := [], skillsByName := [], journal := []\<rparr>) = Some r"
    by blast
  then have "\<exists>r. load k P R = Some r"
    by (simp add: load_def split: sum.splits bool.splits)
  then show ?thesis by blast
qed

lemma slugsDerived_skill:
  assumes "slugsDerived P R" and "sk \<in> set (skills R) \<or> sk \<in> snd ` set (skillsByName R)"
  shows "slug sk = slugify (String_toLowerCase P) (name (metadata sk))"
  using assms by (fastforce simp: slugsDerived_def skills_def)

text \<open>
  Claim C7. For every input string, \<open>slugify\<close> computes what the specification describes
  (\<open>slugSpec\<close>: trim, lower-case, collapse each run of non-alphanumeric characters into one
  hyphen, strip the hyphens at both ends, fall back to \<open>skill\<close> when nothing is left), and
  the slug is not empty, consists of lower-case ASCII letters, digits and hyphens only, and
  neither starts nor ends with a hyphen. Every skill that a successful \<open>load\<close> has left in
  the registry, in the slug index or in the name index, carries the slug that \<open>slugify\<close>
  derives from its name, so its slug has that form too; and over a finite tree \<open>load\<close>
  returns for some bound of the depth. The lower-casing of the platform enters through the
  two facts of \<open>lowerCaseMapping\<close>.
\<close>

theorem slugify_normal_form:
  assumes "lowerCaseMapping lower"
  shows "slugify lower v = slugSpec lower v \<and> slugify lower v \<noteq> [] \<and>
         (\<forall>c \<in> set (slugify lower v). isSlugChar c) \<and>
         hd (slugify lower v) \<noteq> hyphen \<and> last (slugify lower v) \<noteq> hyphen \<and>
         (String_toLowerCase P = lower \<and> load n P R0 = Some (Inr R') \<and>
          (sk \<in> set (skills R') \<or> sk \<in> snd ` set (skillsByName R')) \<longrightarrow>
            slug sk = slugify lower (name (metadata sk)) \<and> slug sk \<noteq> [] \<and>
            (\<forall>c \<in> set (slug sk). isSlugChar c) \<and>
            hd (slug sk) \<noteq> hyphen \<and> last (slug sk) \<noteq> hyphen) \<and>
         (finiteBelow P (path_resolve P (root R0)) \<longrightarrow> (\<exists>k r. load k P R0 = Some r))"
proof -
  have nu: "\<forall>s. \<forall>c \<in> set (lower s). \<not> isUpper c"
    using assms by (simp add: lowerCaseMapping_def)
  have "collapseRuns False (lower (trim v)) = replaceNonAlnum (lower (trim v))"
    using replaceNonAlnum_eq_collapse by blast
  then have eq: "slugify lower v = slugSpec lower v"
    unfolding slugify_def slugSpec_def stripHyphens_def Let_def by (simp only:)
  have disc: "slug sk = slugify lower (name (metadata sk)) \<and> slug sk \<noteq> [] \<and>
            (\<forall>c \<in> set (slug sk). isSlugChar c) \<and>
            hd (slug sk) \<noteq> hyphen \<and> last (slug sk) \<noteq> hyphen"
    if h: "String_toLowerCase P = lower \<and> load n P R0 = Some (Inr R') \<and>
          (sk \<in> set (skills R') \<or> sk \<in> snd ` set (skillsByName R'))"
  proof -
    from h have "slugsDerived P R'" using slugsDerived_load by blast
    with h have s: "slug sk = slugify lower (name (metadata sk))"
      using slugsDerived_skill[of P R' sk] by blast
    show ?thesis
      unfolding s using slugify_shape(1-4)[OF nu, of "name (metadata sk)"]
      by (intro conjI refl)
  qed
  have tot: "\<exists>k r. load k P R0 = Some r" if "finiteBelow P (path_resolve P (root R0))"
    using that by (rule load_total)
  from disc have d: "String_toLowerCase P = lower \<and> load n P R0 = Some (Inr R') \<and>
          (sk \<in> set (skills R') \<or> sk \<in> snd ` set (skillsByName R')) \<longrightarrow>
            slug sk = slugify lower (name (metadata sk)) \<and> slug sk \<noteq> [] \<and>
            (\<forall>c \<in> set (slug sk). isSlugChar c) \<and>
            hd (slug sk) \<noteq> hyphen \<and> last (slug sk) \<noteq> hyphen"
    by (rule impI)
  from tot have t: "finiteBelow P (path_resolve P (root R0)) \<longrightarrow> (\<exists>k r. load k P R0 = Some r)"
    by (rule impI)
  show ?thesis
    using eq slugify_shape(1-4)[OF nu, of v] d t by (intro conjI)
qed

lemma demo_finite_root: "finiteBelow demoPlatform (path_resolve demoPlatform (root emptyRegistry))"
  by (simp add: demo_fields(4) emptyRegistry_def demo_finiteBelow)

lemma demo_skills:
  "fooSkill \<in> set (skills demoRegistry)" "barSkill \<in> set (skills demoRegistry)"
  "name (metadata fooSkill) = js ''Foo''" "name (metadata barSkill) = js ''Bar''"
  "slug fooSkill = js ''foo''" "slug barSkill = js ''bar''"
  by (simp_all add: skills_def demoRegistry_def fooSkill_def barSkill_def)

text \<open>
  Claim C7 on one name and on the small skills root, where the archive \<open>t.zip\<close> declares the
  name \<open>Bar\<close>.
\<close>

theorem slugify_normal_form_witness:
  "lowerCaseMapping asciiLower \<and>
   slugify asciiLower (js ''  Hello,  World!! '') = js ''hello-world'' \<and>
   slugify asciiLower (js ''  Hello,  World!! '') = slugSpec asciiLower (js ''  Hello,  World!! '') \<and>
   list_all isSlugChar (slugify asciiLower (js ''  Hello,  World!! '')) \<and>
   hd (slugify asciiLower (js ''  Hello,  World!! '')) \<noteq> hyphen \<and>
   last (slugify asciiLower (js ''  Hello,  World!! '')) \<noteq> hyphen \<and>
   String_toLowerCase demoPlatform = asciiLower \<and>
   load (Suc (Suc (Suc (Suc 0)))) demoPlatform emptyRegistry = Some (Inr demoRegistry) \<and>
   barSkill \<in> set (skills demoRegistry) \<and>
   name (metadata barSkill) = js ''Bar'' \<and>
   slug barSkill = js ''bar'' \<and>
   slug barSkill = slugify asciiLower (js ''Bar'') \<and>
   list_all isSlugChar (slug barSkill) \<and>
   hd (slug barSkill) \<noteq> hyphen \<and> last (slug barSkill) \<noteq> hyphen \<and>
   finiteBelow demoPlatform (path_resolve demoPlatform (root emptyRegistry)) \<and>
   (\<exists>k r. load k demoPlatform emptyRegistry = Some r)"
proof -
  have ev: "slugify asciiLower (js ''  Hello,  World!! '') = js ''hello-world''"
    by (simp add: slugify_def string_defs)
  note nf = slugify_normal_form[OF asciiLower_mapping, of "js ''  Hello,  World!! ''"
      demoPlatform "Suc (Suc (Suc (Suc 0)))" emptyRegistry demoRegistry barSkill]
  have low: "String_toLowerCase demoPlatform = asciiLower" by (rule demo_fields(1))
  from nf low demo_load demo_skills(2)
  have d: "slug barSkill = slugify asciiLower (name (metadata barSkill)) \<and> slug barSkill \<noteq> [] \<and>
            (\<forall>c \<in> set (slug barSkill). isSlugChar c) \<and>
            hd (slug barSkill) \<noteq> hyphen \<and> last (slug barSkill) \<noteq> hyphen"
    by blast
  then have d1: "slug barSkill = slugify asciiLower (js ''Bar'')"
    by (simp only: demo_skills(4))
  from d have d2: "list_all isSlugChar (slug barSkill)" unfolding list_all_iff by blast
  from d have d3: "hd (slug barSkill) \<noteq> hyphen" "last (slug barSkill) \<noteq> hyphen" by blast+
  from nf demo_finite_root have t: "\<exists>k r. load k demoPlatform emptyRegistry = Some r" by blast
  from nf have n1: "slugify asciiLower (js ''  Hello,  World!! '') =
      slugSpec asciiLower (js ''  Hello,  World!! '')"
    and n2: "list_all isSlugChar (slugify asciiLower (js ''  Hello,  World!! ''))"
    and n3: "hd (slugify asciiLower (js ''  Hello,  World!! '')) \<noteq> hyphen"
    and n4: "last (slugify asciiLower (js ''  Hello,  World!! '')) \<noteq> hyphen"
    unfolding list_all_iff by blast+
  show ?thesis
    using asciiLower_mapping ev n1 n2 n3 n4 low demo_load demo_skills(2,4,6) d1 d2 d3
      demo_finite_root t
    by (intro conjI)
qed

section \<open>Properties of parseSkillMd\<close>






























end
